theory Spec2Isabelle
  imports Main "HOL-Library.Char_ord" "HOL-Library.List_Lexorder"
begin

section \<open>Data model (src/app/final.js)\<close>

text \<open>
  A \<open>Pixel\<close> is one cell of the canvas grid. The canvas creates exactly one Pixel object
  for each (row, col) of the grid, \<open>Pixel.id()\<close> is \<open>px@row/col\<close>, and \<open>Pixel.is\<close> compares
  ids, so a pixel is identified with its (row, col) pair. A JavaScript reference that may
  be \<open>null\<close> is an \<open>option\<close>.
\<close>

record pixel =
  row :: int
  col :: int

text \<open>\<open>CanvasComponent\<close>: \<open>defineChildren\<close> creates the pixels of rows \<open>0..rowCount-1\<close> and
  columns \<open>0..colCount-1\<close>; \<open>getPixelByRowCol\<close> is \<open>this.pixels[Pixel.makeId(r, c)] || null\<close>.\<close>

record canvas =
  rowCount :: int
  colCount :: int

definition getPixelByRowCol :: "canvas \<Rightarrow> int \<Rightarrow> int \<Rightarrow> pixel option" where
  "getPixelByRowCol cv r c =
     (if 0 \<le> r \<and> r < rowCount cv \<and> 0 \<le> c \<and> c < colCount cv
      then Some \<lparr>row = r, col = c\<rparr> else None)"

text \<open>\<open>getPixelById(pixel.id())\<close>: the canvas pixel with that id, if the grid has one.\<close>

definition getPixelById :: "canvas \<Rightarrow> pixel \<Rightarrow> pixel option" where
  "getPixelById cv p = getPixelByRowCol cv (row p) (col p)"

datatype joint = Joint (layerId: string) (jointKey: string)

text \<open>The value of the static \<open>type\<close> field of each Layer subclass.\<close>

datatype kind =
  FreeLine | StepLine | SwitchLine | Free | Circle | Diamond | Square | Text | Table

text \<open>
  The fields \<open>Layer.stash\<close> copies and \<open>Layer.rollback\<close> restores. \<open>pixels\<close> is a JavaScript
  array whose entries the code guards against \<open>null\<close>; \<open>values\<close> is written \<open>values'\<close>
  and \<open>_isSelected\<close> is written \<open>isSelected\<close>.
\<close>

record fields =
  fromPixel :: "pixel option"
  toPixel :: "pixel option"
  pixels :: "pixel option list"
  values' :: "string list"
  joints :: "joint list"
  zindex :: int
  lineForm :: string
  isSelected :: bool
  tableId :: "string option"

text \<open>
  A \<open>Layer\<close> object: the fields above, its class (\<open>getType()\<close>), its \<open>id\<close> (written \<open>lid\<close>),
  the commit lock, the stash (the object \<open>this.stashed\<close>, a \<open>Snapshot\<close> of the fields) and the
  joint pixels recorded by the last \<open>commit\<close> (an object from key to pixel, an association
  list here). The constructor's empty stash \<open>{}\<close> is never read by
  \<open>commit\<close>: a rollback there is preceded by \<open>stash()\<close>, in this call or in the earlier call
  that set the lock.
\<close>

datatype snapshot = Snapshot (saved: fields)

record layer = fields +
  kind :: kind
  lid :: string
  commitLock :: bool
  stashed :: snapshot
  lastKeyedJointPixels :: "(string \<times> pixel option) list"

text \<open>
  A layer value for the concrete instances below: the constructor's defaults
  (\<open>lineForm = "solid-thin"\<close>, no joints, not selected, lock clear, no table, \<open>toPixel = null\<close>)
  with the given class, id, anchor, cells (all drawn with \<open>x\<close>) and z-index.
\<close>

definition emptyFields :: fields where
  "emptyFields = \<lparr>fromPixel = None, toPixel = None, pixels = [], values' = [], joints = [],
     zindex = 0, lineForm = [], isSelected = False, tableId = None\<rparr>"

definition sampleLayer :: "kind \<Rightarrow> string \<Rightarrow> pixel \<Rightarrow> pixel list \<Rightarrow> int \<Rightarrow> layer" where
  "sampleLayer k i fp ps z =
     \<lparr>fromPixel = Some fp, toPixel = None, pixels = map Some ps,
      values' = map (\<lambda>p. ''x'') ps, joints = [], zindex = z, lineForm = ''solid-thin'',
      isSelected = False, tableId = None,
      kind = k, lid = i, commitLock = False, stashed = Snapshot emptyFields,
      lastKeyedJointPixels = []\<rparr>"

section \<open>GroupManager\<close>

record groupManager =
  layerGroups :: "string list list"
  layerGroupHistory :: "string list list list"

definition GroupManager_new :: groupManager where
  "GroupManager_new = \<lparr>layerGroups = [], layerGroupHistory = [[]]\<rparr>"

text \<open>\<open>capture\<close>: \<open>pop\<close> removes the last entry, \<open>unshift\<close> adds at the front.\<close>

definition GroupManager_capture :: "groupManager \<Rightarrow> groupManager" where
  "GroupManager_capture gm =
     (let clonedGroups = map (\<lambda>grp. grp) (layerGroups gm);
          h = (if length (layerGroupHistory gm) > 50
               then butlast (layerGroupHistory gm) else layerGroupHistory gm)
      in gm\<lparr>layerGroupHistory := clonedGroups # h\<rparr>)"

text \<open>JavaScript truthiness of a string (\<open>filter(Boolean)\<close> on ids): the empty string is
  falsy.\<close>

definition truthy :: "string \<Rightarrow> bool" where
  "truthy s = (s \<noteq> [])"

text \<open>\<open>Array.prototype.toString\<close> of an array of strings: the entries joined by commas.\<close>

fun toString :: "string list \<Rightarrow> string" where
  "toString [] = []"
| "toString [s] = s"
| "toString (s # t # ss) = s @ '','' @ toString (t # ss)"

text \<open>\<open>group.sort().toString()\<close>: the default sort orders strings by their code units.\<close>

definition signature :: "string list \<Rightarrow> string" where
  "signature grp = toString (sort grp)"

text \<open>A thrown \<open>TypeError\<close> (reading \<open>.id\<close> of \<open>null\<close>).\<close>

datatype jsError = TypeError

text \<open>
  \<open>findGroupsFromLayers(layers)\<close>. The argument may be missing (\<open>!layers\<close>) and its entries
  may be \<open>null\<close>.
\<close>

definition findGroupsFromLayers ::
  "'a layer_scheme option list option \<Rightarrow> groupManager \<Rightarrow> string list list" where
  "findGroupsFromLayers layers gm =
     (case layers of
        None \<Rightarrow> []
      | Some ls \<Rightarrow>
          if \<not> list_all (\<lambda>l. l \<noteq> None) ls then []
          else (let layerIds = map (\<lambda>l. lid (the l)) ls
                in filter (\<lambda>groupLayerIds. list_all (\<lambda>i. i \<in> set layerIds) groupLayerIds)
                     (layerGroups gm)))"

text \<open>
  \<open>ungroupLayers(layers)\<close>. \<open>group.sort()\<close> in the filter callback sorts every stored group
  in place before its signature is compared, so the groups that stay are sorted.
\<close>

definition ungroupLayers ::
  "'a layer_scheme option list option \<Rightarrow> groupManager \<Rightarrow> groupManager" where
  "ungroupLayers layers gm =
     (case layers of
        None \<Rightarrow> gm
      | Some ls \<Rightarrow>
          if \<not> list_all (\<lambda>l. l \<noteq> None) ls then gm
          else (let groupsToRemoveSignatures = map signature (findGroupsFromLayers layers gm)
                in gm\<lparr>layerGroups :=
                     filter (\<lambda>grp. signature grp \<notin> set groupsToRemoveSignatures)
                       (map sort (layerGroups gm))\<rparr>))"

text \<open>\<open>groupLayers(layers)\<close>: \<open>layers.map(layer => layer.id)\<close> throws on a \<open>null\<close> entry,
  before anything is written.\<close>

definition groupLayers ::
  "'a layer_scheme option list option \<Rightarrow> groupManager \<Rightarrow> jsError + groupManager" where
  "groupLayers layers gm =
     (case layers of
        None \<Rightarrow> Inr gm
      | Some ls \<Rightarrow>
          if length ls < 2 then Inr gm
          else if \<not> list_all (\<lambda>l. l \<noteq> None) ls then Inl TypeError
          else (let newGroupIds = filter truthy (map (\<lambda>l. lid (the l)) ls)
                in if length newGroupIds < 2 then Inr gm
                   else if \<not> list_ex (\<lambda>g. signature g = signature newGroupIds) (layerGroups gm)
                   then Inr (gm\<lparr>layerGroups := layerGroups gm @ [newGroupIds]\<rparr>)
                   else Inr gm))"

definition tidy :: "string list option \<Rightarrow> groupManager \<Rightarrow> groupManager" where
  "tidy deletedLayerIds gm =
     (case deletedLayerIds of
        None \<Rightarrow> gm
      | Some ds \<Rightarrow>
          if length ds = 0 then gm
          else gm\<lparr>layerGroups :=
                 filter (\<lambda>grp. length grp > 1)
                   (map (\<lambda>grp. filter (\<lambda>i. i \<notin> set ds) grp)
                      (layerGroups gm))\<rparr>)"

text \<open>One call on the GroupManager; a call that throws leaves the manager as it was.\<close>

datatype 'a groupCall =
  GroupLayers "'a layer_scheme option list option"
| UngroupLayers "'a layer_scheme option list option"
| Tidy "string list option"

fun groupStep :: "groupManager \<Rightarrow> 'a groupCall \<Rightarrow> groupManager" where
  "groupStep gm (GroupLayers ls) = (case groupLayers ls gm of Inl e \<Rightarrow> gm | Inr gm' \<Rightarrow> gm')"
| "groupStep gm (UngroupLayers ls) = ungroupLayers ls gm"
| "groupStep gm (Tidy ds) = tidy ds gm"

definition groupRun :: "'a groupCall list \<Rightarrow> groupManager \<Rightarrow> groupManager" where
  "groupRun calls gm = foldl groupStep gm calls"

text \<open>Every stored group holds at least two ids.\<close>

definition groupsOk :: "groupManager \<Rightarrow> bool" where
  "groupsOk gm = list_all (\<lambda>grp. 2 \<le> length grp) (layerGroups gm)"

section \<open>LayerManager: history\<close>

text \<open>
  The fields of \<open>LayerManager\<close> the history uses. \<open>capture\<close> pushes
  \<open>copyLayersIdentically(this.layers)\<close>; the copy is the parameter \<open>cp\<close>, and the entries of
  the history are whatever it returns.
\<close>

record 'l layerManager =
  layers :: "'l list"
  layerHistory :: "'l list list"
  historyCursor :: nat
  groupManager :: groupManager

definition LayerManager_new :: "'l layerManager" where
  "LayerManager_new =
     \<lparr>layers = [], layerHistory = [[]], historyCursor = 0, groupManager = GroupManager_new\<rparr>"

definition capture :: "('l list \<Rightarrow> 'l list) \<Rightarrow> 'l layerManager \<Rightarrow> 'l layerManager" where
  "capture cp m =
     (let h = (if length (layerHistory m) > 50
               then butlast (layerHistory m) else layerHistory m)
      in m\<lparr>historyCursor := 0,
            layerHistory := cp (layers m) # h,
            groupManager := GroupManager_capture (groupManager m)\<rparr>)"

text \<open>
  A sequence of captures with arbitrary edits in between: each step replaces the live
  layers and groups by the given ones and then captures.
\<close>

fun captures ::
  "('l list \<Rightarrow> 'l list) \<Rightarrow> ('l list \<times> string list list) list \<Rightarrow> 'l layerManager \<Rightarrow> 'l layerManager"
where
  "captures cp [] m = m"
| "captures cp ((ls, gs) # rest) m =
     captures cp rest
       (capture cp (m\<lparr>layers := ls, groupManager := (groupManager m)\<lparr>layerGroups := gs\<rparr>\<rparr>))"

section \<open>LayerManager: the layer collection and its z-order\<close>

text \<open>
  \<open>add(layer)\<close> is \<open>if (layer) this.layers.unshift(layer)\<close> and \<open>addSecond(layer)\<close> is
  \<open>if (layer) this.layers.splice(1, 0, layer)\<close>. With \<open>setLayers\<close>, which filters out
  \<open>null\<close>, these are the only writers of \<open>this.layers\<close>, so the array holds no \<open>null\<close>
  and is a list of layers.
\<close>

definition add :: "'l option \<Rightarrow> 'l layerManager \<Rightarrow> 'l layerManager" where
  "add layer m = (case layer of None \<Rightarrow> m | Some l \<Rightarrow> m\<lparr>layers := l # layers m\<rparr>)"

definition addSecond :: "'l option \<Rightarrow> 'l layerManager \<Rightarrow> 'l layerManager" where
  "addSecond layer m =
     (case layer of None \<Rightarrow> m
      | Some l \<Rightarrow> m\<lparr>layers := take 1 (layers m) @ l # drop 1 (layers m)\<rparr>)"

text \<open>
  \<open>getLayersOrderedByZindex\<close>: \<open>[...this.layers].sort((a, b) => a.zindex - b.zindex)\<close>.
  \<open>Array.prototype.sort\<close> is a stable sort (ECMAScript 2019), and so is \<open>sort_key\<close>.
\<close>

definition getLayersOrderedByZindex :: "'a layer_scheme layerManager \<Rightarrow> 'a layer_scheme list" where
  "getLayersOrderedByZindex m = sort_key zindex (layers m)"

section \<open>Layer: the transaction protocol\<close>

text \<open>
  \<open>getKeyedJointPixels()\<close> is overridden by each shape class with its own geometry. It is
  the parameter \<open>keyed\<close> of the functions below; the base class returns \<open>{}\<close>.
  \<open>getJointPixels()\<close> is \<open>Object.values(this.getKeyedJointPixels()).filter(Boolean)\<close>.
\<close>

definition getJointPixels ::
  "('a layer_scheme \<Rightarrow> (string \<times> pixel option) list) \<Rightarrow> 'a layer_scheme \<Rightarrow> pixel option list"
where
  "getJointPixels keyed l = filter (\<lambda>p. p \<noteq> None) (map snd (keyed l))"

text \<open>\<open>p && typeof p.id === 'function'\<close>: true of every Pixel object, false of \<open>null\<close>.\<close>

definition validPixel :: "pixel option \<Rightarrow> bool" where
  "validPixel p = (p \<noteq> None)"

text \<open>\<open>Layer.isHappy\<close>, the base happiness condition. \<open>TextLayer\<close> (inside a table) and
  \<open>TableLayer\<close> add conditions of their own to it.\<close>

definition isHappy ::
  "('a layer_scheme \<Rightarrow> (string \<times> pixel option) list) \<Rightarrow> 'a layer_scheme \<Rightarrow> bool"
where
  "isHappy keyed l =
     (let pixelsValid = list_all validPixel (pixels l);
          jointPixelsValid = list_all validPixel (getJointPixels keyed l);
          fromPixelValid = validPixel (fromPixel l);
          toPixelValidOrNull = (toPixel l = None \<or> validPixel (toPixel l))
      in pixelsValid \<and> jointPixelsValid \<and> fromPixelValid \<and> toPixelValidOrNull)"

text \<open>\<open>Layer.stash\<close> and \<open>Layer.rollback\<close>, field by field. \<open>TextLayer\<close> and \<open>TableLayer\<close>
  override both; they are not modelled here.\<close>

definition stash :: "'a layer_scheme \<Rightarrow> 'a layer_scheme" where
  "stash l =
     l\<lparr>stashed :=
         Snapshot
           \<lparr>fromPixel = fromPixel l, toPixel = toPixel l, pixels = pixels l,
            values' = values' l, joints = joints l, zindex = zindex l, lineForm = lineForm l,
            isSelected = isSelected l, tableId = tableId l\<rparr>\<rparr>"

definition releaseCommit :: "'a layer_scheme \<Rightarrow> 'a layer_scheme" where
  "releaseCommit l = l\<lparr>commitLock := False\<rparr>"

definition beginCommit :: "'a layer_scheme \<Rightarrow> 'a layer_scheme" where
  "beginCommit l = l\<lparr>commitLock := True\<rparr>"

definition rollback :: "'a layer_scheme \<Rightarrow> 'a layer_scheme" where
  "rollback l =
     releaseCommit
       (l\<lparr>fromPixel := fromPixel (saved (stashed l)), toPixel := toPixel (saved (stashed l)),
          pixels := pixels (saved (stashed l)), values' := values' (saved (stashed l)),
          joints := joints (saved (stashed l)), zindex := zindex (saved (stashed l)),
          lineForm := lineForm (saved (stashed l)),
          isSelected := isSelected (saved (stashed l)),
          tableId := tableId (saved (stashed l))\<rparr>)"

text \<open>\<open>render()\<close> releases the commit lock; its other effects are on the display.\<close>

definition render :: "'a layer_scheme \<Rightarrow> 'a layer_scheme" where
  "render l = releaseCommit l"

text \<open>
  A mutator is a JavaScript function that works on the layer: it returns, or it throws,
  and either way it leaves the layer in some state.
\<close>

datatype 'l outcome = Returned 'l | Threw 'l

fun stateOf :: "'l outcome \<Rightarrow> 'l" where
  "stateOf (Returned l) = l"
| "stateOf (Threw l) = l"

text \<open>\<open>updateFuncs.forEach(func => func())\<close>: the first throw ends the loop.\<close>

fun runFuncs :: "('l \<Rightarrow> 'l outcome) list \<Rightarrow> 'l \<Rightarrow> 'l outcome" where
  "runFuncs [] l = Returned l"
| "runFuncs (f # fs) l =
     (case f l of Returned l' \<Rightarrow> runFuncs fs l' | Threw l' \<Rightarrow> Threw l')"

text \<open>The part of \<open>commit\<close> before the \<open>try\<close>: stash unless already committing, set the lock,
  record the joint pixels.\<close>

definition commitEnter ::
  "('a layer_scheme \<Rightarrow> (string \<times> pixel option) list) \<Rightarrow> 'a layer_scheme \<Rightarrow> 'a layer_scheme"
where
  "commitEnter keyed l =
     (let l1 = (if \<not> commitLock l then stash l else l);
          l2 = beginCommit l1
      in l2\<lparr>lastKeyedJointPixels := keyed l2\<rparr>)"

text \<open>\<open>commit(...updateFuncs)\<close>: the returned boolean and the layer afterwards.\<close>

definition commit ::
  "('a layer_scheme \<Rightarrow> (string \<times> pixel option) list) \<Rightarrow>
   ('a layer_scheme \<Rightarrow> 'a layer_scheme outcome) list \<Rightarrow> 'a layer_scheme \<Rightarrow>
   bool \<times> 'a layer_scheme"
where
  "commit keyed updateFuncs l =
     (case runFuncs updateFuncs (commitEnter keyed l) of
        Threw l' \<Rightarrow> (False, rollback l')
      | Returned l' \<Rightarrow> if \<not> isHappy keyed l' then (False, rollback l') else (True, l'))"

text \<open>The fields a rollback restores, as one record.\<close>

definition observable :: "'a layer_scheme \<Rightarrow> fields" where
  "observable l = fields.truncate l"

text \<open>
  \<open>Layer.move(verticalDiff, lateralDiff)\<close>. Cells that would leave the canvas are dropped
  by \<open>filter(Boolean)\<close>; an anchor that would leave it stays where it is
  (\<open>|| this.fromPixel\<close>). \<open>values\<close> is not touched.
\<close>

definition move :: "canvas \<Rightarrow> int \<Rightarrow> int \<Rightarrow> 'a layer_scheme \<Rightarrow> 'a layer_scheme" where
  "move cv verticalDiff lateralDiff l =
     (let newPixels =
            map (\<lambda>p. case p of None \<Rightarrow> None
                      | Some q \<Rightarrow> getPixelByRowCol cv (row q + verticalDiff) (col q + lateralDiff))
              (pixels l);
          l1 = l\<lparr>pixels := filter (\<lambda>p. p \<noteq> None) newPixels\<rparr>;
          l2 = (case fromPixel l1 of
                  None \<Rightarrow> l1
                | Some f \<Rightarrow>
                    l1\<lparr>fromPixel :=
                         (case getPixelByRowCol cv (row f + verticalDiff) (col f + lateralDiff) of
                            Some q \<Rightarrow> Some q | None \<Rightarrow> Some f)\<rparr>);
          l3 = (case toPixel l2 of
                  None \<Rightarrow> l2
                | Some t \<Rightarrow>
                    l2\<lparr>toPixel :=
                         (case getPixelByRowCol cv (row t + verticalDiff) (col t + lateralDiff) of
                            Some q \<Rightarrow> Some q | None \<Rightarrow> Some t)\<rparr>)
      in l3)"

text \<open>The canvas of the application: 65 rows of 225 columns.\<close>

definition defaultCanvas :: canvas where
  "defaultCanvas = \<lparr>rowCount = 65, colCount = 225\<rparr>"

section \<open>LayerManager: atomic commits\<close>

text \<open>
  Layers are objects that the jobs refer to: the store maps a reference to the state of
  its layer. A job is a pair \<open>[layer, func]\<close>; \<open>None\<close> stands for a \<open>layer\<close> that is \<open>null\<close>
  (or has no \<open>commit\<close>) and for a \<open>func\<close> that is not a function. \<open>func(layer)\<close> works on the
  layer it is given.
\<close>

type_synonym 'a store = "nat \<Rightarrow> 'a layer_scheme"

type_synonym 'a job = "nat option \<times> ('a layer_scheme \<Rightarrow> 'a layer_scheme outcome) option"

text \<open>
  \<open>atomicCommit\<close> calls \<open>layer.commit(...)\<close> and \<open>l.rollback()\<close> on whatever class the layer
  has. \<open>commit\<close> itself is never overridden, but it calls \<open>this.stash()\<close>, \<open>this.rollback()\<close>,
  \<open>this.isHappy()\<close> and \<open>this.getKeyedJointPixels()\<close>; \<open>TextLayer\<close> and \<open>TableLayer\<close> override
  the first three and the shape classes the last. So a class is given by what its \<open>commit\<close>
  and its \<open>rollback\<close> do, and the class of each object is the parameter \<open>classOf\<close> of the
  functions below. \<open>Layer_class keyed\<close> is a class that inherits \<open>stash\<close>, \<open>rollback\<close> and
  \<open>isHappy\<close> from \<open>Layer\<close> and has \<open>keyed\<close> for \<open>getKeyedJointPixels\<close> (every class but
  \<open>TextLayer\<close> and \<open>TableLayer\<close>, whose methods are not modelled).
\<close>

record 'a layerClass =
  commitOf ::
    "('a layer_scheme \<Rightarrow> 'a layer_scheme outcome) list \<Rightarrow> 'a layer_scheme \<Rightarrow> bool \<times> 'a layer_scheme"
  rollbackOf :: "'a layer_scheme \<Rightarrow> 'a layer_scheme"

definition Layer_class ::
  "('a layer_scheme \<Rightarrow> (string \<times> pixel option) list) \<Rightarrow> 'a layerClass" where
  "Layer_class keyed = \<lparr>commitOf = commit keyed, rollbackOf = rollback\<rparr>"

text \<open>\<open>committedLayers.forEach(l => l.rollback())\<close>.\<close>

definition rollbackAll :: "(nat \<Rightarrow> 'a layerClass) \<Rightarrow> nat list \<Rightarrow> 'a store \<Rightarrow> 'a store" where
  "rollbackAll classOf committedLayers s =
     fold (\<lambda>a st. st(a := rollbackOf (classOf a) (st a))) committedLayers s"

text \<open>\<open>atomicCommit(...jobs)\<close>: the loop over the jobs, with \<open>committedLayers\<close> and the store
  as its state, and the call.\<close>

fun atomicCommit_loop ::
  "(nat \<Rightarrow> 'a layerClass) \<Rightarrow> 'a job list \<Rightarrow> nat list \<Rightarrow> 'a store \<Rightarrow> bool \<times> 'a store"
where
  "atomicCommit_loop classOf [] committedLayers s = (True, s)"
| "atomicCommit_loop classOf ((Some a, Some func) # jobs) committedLayers s =
     (let (committed, l') = commitOf (classOf a) [func] (s a);
          s' = s(a := l')
      in if \<not> committed then (False, rollbackAll classOf committedLayers s')
         else atomicCommit_loop classOf jobs (committedLayers @ [a]) s')"
| "atomicCommit_loop classOf (job # jobs) committedLayers s =
     (False, rollbackAll classOf committedLayers s)"

definition atomicCommit ::
  "(nat \<Rightarrow> 'a layerClass) \<Rightarrow> 'a job list \<Rightarrow> 'a store \<Rightarrow> bool \<times> 'a store"
where
  "atomicCommit classOf jobs s = atomicCommit_loop classOf jobs [] s"

text \<open>
  \<open>moveLayersAtomically(layersToMove, verticalDiff, lateralDiff)\<close> up to the atomic commit
  (on success it goes on to \<open>resizeJoinerLayers\<close>, which is not modelled).
\<close>

definition moveLayersAtomically ::
  "(nat \<Rightarrow> 'a layerClass) \<Rightarrow> canvas \<Rightarrow> nat list \<Rightarrow> int \<Rightarrow> int \<Rightarrow> 'a store \<Rightarrow> bool \<times> 'a store"
where
  "moveLayersAtomically classOf cv layersToMove verticalDiff lateralDiff s =
     (if length layersToMove = 0 then (True, s)
      else atomicCommit classOf
             (map (\<lambda>a. (Some a, Some (\<lambda>l. Returned (move cv verticalDiff lateralDiff l))))
                layersToMove) s)"

text \<open>
  What the specification calls the commits of a batch, to be compared with
  \<open>atomicCommit\<close>: each job's commit in its turn, on the store as the commits before it
  left it, until one fails; a job that is not well formed counts as a commit that fails.
  The result says whether every commit succeeded, and gives the store the commits left.
\<close>

fun spec_commitsInTurn ::
  "(nat \<Rightarrow> 'a layerClass) \<Rightarrow> 'a job list \<Rightarrow> 'a store \<Rightarrow> bool \<times> 'a store"
where
  "spec_commitsInTurn classOf [] s = (True, s)"
| "spec_commitsInTurn classOf ((layer, func) # jobs) s =
     (case layer of
        None \<Rightarrow> (False, s)
      | Some a \<Rightarrow>
         (case func of
            None \<Rightarrow> (False, s)
          | Some f \<Rightarrow>
              if fst (commitOf (classOf a) [f] (s a))
              then spec_commitsInTurn classOf jobs (s(a := snd (commitOf (classOf a) [f] (s a))))
              else (False, s(a := snd (commitOf (classOf a) [f] (s a))))))"

text \<open>A mutator that leaves the stash and the commit lock of the layer alone.\<close>

definition keepsTransaction :: "('a layer_scheme \<Rightarrow> 'a layer_scheme outcome) \<Rightarrow> bool" where
  "keepsTransaction f =
     (\<forall>l. stashed (stateOf (f l)) = stashed l \<and> commitLock (stateOf (f l)) = commitLock l)"

text \<open>\<open>getKeyedJointPixels\<close> of the base class: \<open>return {}\<close>.\<close>

definition baseKeyed :: "'a layer_scheme \<Rightarrow> (string \<times> pixel option) list" where
  "baseKeyed l = []"

text \<open>Two layers for the concrete instances below: a square \<open>A\<close> with the one cell (0, 0)
  and z-index 1, a circle \<open>B\<close> with the one cell (5, 5) and z-index 2.\<close>

definition layerA :: layer where
  "layerA = sampleLayer Square ''A'' \<lparr>row = 0, col = 0\<rparr> [\<lparr>row = 0, col = 0\<rparr>] 1"

text \<open>A free line \<open>L\<close> from the given cell to the given cell (anchors only).\<close>

definition sampleLine :: "pixel \<Rightarrow> pixel \<Rightarrow> layer" where
  "sampleLine fp tp = (sampleLayer FreeLine ''L'' fp [] 3)\<lparr>toPixel := Some tp\<rparr>"

definition layerB :: layer where
  "layerB = sampleLayer Circle ''B'' \<lparr>row = 5, col = 5\<rparr> [\<lparr>row = 5, col = 5\<rparr>] 2"

section \<open>Joint resolution\<close>

text \<open>\<open>Pixel.is(otherPixel)\<close> and \<open>Pixel.isNear(otherPixel, distance = 1)\<close>; the argument may
  be \<open>null\<close>.\<close>

definition is_pixel :: "pixel \<Rightarrow> pixel option \<Rightarrow> bool" where
  "is_pixel p otherPixel = (case otherPixel of None \<Rightarrow> False | Some q \<Rightarrow> row p = row q \<and> col p = col q)"

definition isNear :: "pixel \<Rightarrow> pixel option \<Rightarrow> int \<Rightarrow> bool" where
  "isNear p otherPixel distance =
     (case otherPixel of
        None \<Rightarrow> False
      | Some q \<Rightarrow> \<bar>row q - row p\<bar> \<le> distance \<and> \<bar>col q - col p\<bar> \<le> distance)"

text \<open>
  \<open>getJoinerPixels()\<close>: the base class returns \<open>[]\<close>; \<open>BaseLineLayer\<close> (the free, step and
  switch lines) returns \<open>getEndPixels()\<close>, the two anchors looked up on the canvas, or \<open>[]\<close>
  when one of them is missing.
\<close>

definition isLineKind :: "kind \<Rightarrow> bool" where
  "isLineKind k = (k = FreeLine \<or> k = StepLine \<or> k = SwitchLine)"

definition getEndPixels :: "canvas \<Rightarrow> 'a layer_scheme \<Rightarrow> pixel option list" where
  "getEndPixels cv l =
     (let from = (case fromPixel l of None \<Rightarrow> None | Some p \<Rightarrow> getPixelById cv p);
          to = (case toPixel l of None \<Rightarrow> None | Some p \<Rightarrow> getPixelById cv p)
      in if from \<noteq> None \<and> to \<noteq> None then [from, to] else [])"

definition getJoinerPixels :: "canvas \<Rightarrow> 'a layer_scheme \<Rightarrow> pixel option list" where
  "getJoinerPixels cv l = (if isLineKind (kind l) then getEndPixels cv l else [])"

text \<open>\<open>x.filter(Boolean)\<close> on an array of pixels.\<close>

definition filterBoolean :: "pixel option list \<Rightarrow> pixel list" where
  "filterBoolean ps = map the (filter (\<lambda>p. p \<noteq> None) ps)"

text \<open>\<open>hasPixel\<close>, \<open>hasJointPixel\<close>, \<open>hasJoinerPixel\<close>, \<open>usesPixel\<close>: the pixel id is given by
  the pixel it names.\<close>

definition hasPixel :: "'a layer_scheme \<Rightarrow> pixel \<Rightarrow> bool" where
  "hasPixel l q = list_ex (\<lambda>p. p = Some q) (pixels l)"

definition hasJointPixel ::
  "('a layer_scheme \<Rightarrow> (string \<times> pixel option) list) \<Rightarrow> 'a layer_scheme \<Rightarrow> pixel \<Rightarrow> bool"
where
  "hasJointPixel keyed l q = list_ex (\<lambda>p. p = q) (filterBoolean (getJointPixels keyed l))"

definition hasJoinerPixel :: "canvas \<Rightarrow> 'a layer_scheme \<Rightarrow> pixel \<Rightarrow> bool" where
  "hasJoinerPixel cv l q = list_ex (\<lambda>p. p = q) (filterBoolean (getJoinerPixels cv l))"

definition usesPixel ::
  "('a layer_scheme \<Rightarrow> (string \<times> pixel option) list) \<Rightarrow> 'a layer_scheme \<Rightarrow> pixel \<Rightarrow> bool"
where
  "usesPixel keyed l q = (hasPixel l q \<or> hasJointPixel keyed l q)"

text \<open>
  \<open>layerPixelIsVisible(targetLayer, targetPixel)\<close>: the loop over the layers, topmost
  first; \<open>None\<close> when the loop ends without a \<open>return\<close>.
\<close>

fun layerPixelIsVisible_loop ::
  "('a layer_scheme \<Rightarrow> (string \<times> pixel option) list) \<Rightarrow> canvas \<Rightarrow> 'a layer_scheme \<Rightarrow> pixel \<Rightarrow>
   'a layer_scheme list \<Rightarrow> bool option"
where
  "layerPixelIsVisible_loop keyed cv targetLayer targetPixel [] = None"
| "layerPixelIsVisible_loop keyed cv targetLayer targetPixel (layer # rest) =
     (let isUsingPixel = usesPixel keyed layer targetPixel;
          isTargetLayer = (lid layer = lid targetLayer)
      in if isTargetLayer \<and> isUsingPixel then Some True
         else (let isConnectedToTargetLayer =
                     (hasJoinerPixel cv layer targetPixel \<or> hasJointPixel keyed layer targetPixel)
               in if \<not> isTargetLayer \<and> isUsingPixel \<and> \<not> isConnectedToTargetLayer
                  then Some False
                  else layerPixelIsVisible_loop keyed cv targetLayer targetPixel rest))"

definition layerPixelIsVisible ::
  "('a layer_scheme \<Rightarrow> (string \<times> pixel option) list) \<Rightarrow> canvas \<Rightarrow> 'a layer_scheme layerManager \<Rightarrow>
   'a layer_scheme option \<Rightarrow> pixel option \<Rightarrow> bool"
where
  "layerPixelIsVisible keyed cv m targetLayer targetPixel =
     (case (targetLayer, targetPixel) of
        (Some target, Some tp) \<Rightarrow>
          (case layerPixelIsVisible_loop keyed cv target tp (rev (getLayersOrderedByZindex m)) of
             Some b \<Rightarrow> b | None \<Rightarrow> False)
      | _ \<Rightarrow> False)"

text \<open>\<open>Layer.join\<close> and \<open>Layer.unjoin\<close>: both bodies hold comments only, and no subclass
  overrides them.\<close>

definition join :: "string \<Rightarrow> string \<Rightarrow> 'a layer_scheme \<Rightarrow> 'a layer_scheme" where
  "join otherLayerId myAttachmentKey l = l"

definition unjoin :: "string \<Rightarrow> string \<Rightarrow> 'a layer_scheme \<Rightarrow> 'a layer_scheme" where
  "unjoin otherLayerId myAttachmentKey l = l"

text \<open>
  \<open>probeJoint\<close>: the loop over the attachment points of the probing layer \<open>this\<close>. Its state
  is \<open>bestState\<close>, \<open>madeAJointThisProbe\<close>, the joint layer and the probing layer; \<open>first\<close> is
  \<open>joinerAttachmentPoints[0]\<close>.
\<close>

fun probeJoint_loop ::
  "bool \<Rightarrow> string \<Rightarrow> pixel \<Rightarrow> pixel \<Rightarrow> pixel list \<Rightarrow>
   nat \<times> bool \<times> 'a layer_scheme \<times> 'a layer_scheme \<Rightarrow> nat \<times> bool \<times> 'a layer_scheme \<times> 'a layer_scheme"
where
  "probeJoint_loop isVisible jointKeyOnParent jointPixelOnParent first [] st = st"
| "probeJoint_loop isVisible jointKeyOnParent jointPixelOnParent first (probePixel # rest)
     (bestState, made, jointLayer, this) =
     (if isVisible \<and> isNear probePixel (Some jointPixelOnParent) 1
      then (if is_pixel probePixel (Some jointPixelOnParent)
            then (2, True,
                  join (lid this) jointKeyOnParent jointLayer,
                  join (lid jointLayer) (if probePixel = first then ''start'' else ''end'') this)
            else probeJoint_loop isVisible jointKeyOnParent jointPixelOnParent first rest
                   (max bestState 1, made, jointLayer, this))
      else probeJoint_loop isVisible jointKeyOnParent jointPixelOnParent first rest
             (bestState, made, jointLayer, this))"

text \<open>\<open>probeJoint(jointLayer, jointKeyOnParent, jointPixelOnParent)\<close> on the probing layer
  \<open>this\<close>: the returned state, the joint layer and the probing layer afterwards.\<close>

definition probeJoint ::
  "('a layer_scheme \<Rightarrow> (string \<times> pixel option) list) \<Rightarrow> canvas \<Rightarrow> 'a layer_scheme layerManager \<Rightarrow>
   'a layer_scheme \<Rightarrow> 'a layer_scheme option \<Rightarrow> string \<Rightarrow> pixel option \<Rightarrow>
   nat \<times> 'a layer_scheme option \<times> 'a layer_scheme"
where
  "probeJoint keyed cv m this jointLayer jointKeyOnParent jointPixelOnParent =
     (case (jointLayer, jointPixelOnParent) of
        (Some jl, Some jp) \<Rightarrow>
          (let joinerAttachmentPoints = filterBoolean (getJoinerPixels cv this)
           in if length joinerAttachmentPoints = 0 then (0, jointLayer, this)
              else
                (let isVisible = layerPixelIsVisible keyed cv m jointLayer jointPixelOnParent;
                     (bestState, made, jl1, this1) =
                        probeJoint_loop isVisible jointKeyOnParent jp (hd joinerAttachmentPoints)
                          joinerAttachmentPoints (0, False, jl, this);
                     jl2 = (if \<not> made \<and> bestState < 2
                            then (case find (\<lambda>j. layerId j = lid this1 \<and> jointKey j = jointKeyOnParent)
                                         (joints jl1) of
                                    Some existingJointOnParent \<Rightarrow> unjoin (lid this1) jointKeyOnParent jl1
                                  | None \<Rightarrow> jl1)
                            else jl1)
                 in (bestState, Some jl2, this1)))
      | _ \<Rightarrow> (0, jointLayer, this))"

text \<open>
  \<open>findJoints\<close>, for one attachment point (\<open>key\<close>, \<open>jointPixel\<close>) of one layer: the loop over
  the probing layers. Its state is \<open>renderState\<close> (\<open>-1\<close> at the start), the layer that owns
  the point, and the probing layers already passed, as the probes left them.
\<close>

datatype jointRendering = RenderWasSelected | RenderJointNear | RenderJoint | RenderNormal

fun findJoints_probe ::
  "('a layer_scheme \<Rightarrow> (string \<times> pixel option) list) \<Rightarrow> canvas \<Rightarrow> 'a layer_scheme layerManager \<Rightarrow>
   string \<Rightarrow> pixel \<Rightarrow> 'a layer_scheme list \<Rightarrow> int \<times> 'a layer_scheme \<times> 'a layer_scheme list \<Rightarrow>
   int \<times> 'a layer_scheme \<times> 'a layer_scheme list"
where
  "findJoints_probe keyed cv m key jointPixel [] st = st"
| "findJoints_probe keyed cv m key jointPixel (probingLayer # rest) (renderState, layer, passed) =
     (if lid probingLayer = lid layer
      then findJoints_probe keyed cv m key jointPixel rest
             (renderState, layer, passed @ [probingLayer])
      else (let (state, jl, this1) =
                  probeJoint keyed cv m probingLayer (Some layer) key (Some jointPixel)
            in findJoints_probe keyed cv m key jointPixel rest
                 (if int state > renderState then int state else renderState,
                  (case jl of Some l \<Rightarrow> l | None \<Rightarrow> layer),
                  passed @ [this1])))"

text \<open>The rendering the \<open>switch (renderState)\<close> of \<open>findJoints\<close> chooses.\<close>

definition jointRenderingOf :: "int \<Rightarrow> jointRendering" where
  "jointRenderingOf renderState =
     (if renderState = 0 then RenderWasSelected
      else if renderState = 1 then RenderJointNear
      else if renderState = 2 then RenderJoint
      else RenderNormal)"

section \<open>TextLayer: contents and cursor\<close>

text \<open>
  \<open>class TextLayer extends Layer\<close>: \<open>contents\<close> is an array of one-character strings, a
  character list here; \<open>cursor\<close> is a JavaScript number. The field \<open>starterChar\<close> is
  initialised to \<open>">"\<close> and never assigned another value, so it is a constant.
\<close>

record textLayer = layer +
  contents :: "char list"
  cursor :: int
  noWrites :: bool

definition starterChar :: char where
  "starterChar = CHR ''>''"

definition newline :: char where
  "newline = CHR 0x0A"

definition carriageReturn :: char where
  "carriageReturn = CHR 0x0D"

text \<open>\<open>this.contents[i] === '\n'\<close>: an index past the end reads \<open>undefined\<close>.\<close>

definition isNewlineAt :: "char list \<Rightarrow> nat \<Rightarrow> bool" where
  "isNewlineAt cs i = (i < length cs \<and> cs ! i = newline)"

text \<open>
  \<open>getCursorLineOffset\<close>: the loop \<open>for (i = cursor - 1; i >= 0; i--)\<close> looks for the last
  line break before the cursor; the second argument of the loop function is \<open>i + 1\<close>, its
  result is \<open>currentLineStart\<close>.
\<close>

fun getCursorLineOffset_loop :: "char list \<Rightarrow> nat \<Rightarrow> nat" where
  "getCursorLineOffset_loop cs 0 = 0"
| "getCursorLineOffset_loop cs (Suc i) =
     (if isNewlineAt cs i then Suc i else getCursorLineOffset_loop cs i)"

definition getCursorLineOffset :: "'a textLayer_scheme \<Rightarrow> int" where
  "getCursorLineOffset t =
     cursor t - int (getCursorLineOffset_loop (contents t) (nat (cursor t)))"

text \<open>\<open>getCurrentLine\<close>: \<open>for (i = 0; i < cursor; i++) if (contents[i] === '\n') line++\<close>.\<close>

definition getCurrentLine :: "'a textLayer_scheme \<Rightarrow> nat" where
  "getCurrentLine t =
     fold (\<lambda>i line. if isNewlineAt (contents t) i then line + 1 else line)
       [0..<nat (cursor t)] 0"

text \<open>
  \<open>getLineStart(targetLineIndex)\<close>: the loop runs over the contents with the index \<open>i\<close> and
  the line counter; it returns \<open>i + 1\<close> at the break that starts the target line and
  \<open>contents.length\<close> when there is none.
\<close>

fun getLineStart_loop :: "nat \<Rightarrow> char list \<Rightarrow> nat \<Rightarrow> nat \<Rightarrow> nat" where
  "getLineStart_loop target [] i line = i"
| "getLineStart_loop target (c # cs) i line =
     (if c = newline
      then (if line + 1 = target then i + 1
            else getLineStart_loop target cs (i + 1) (line + 1))
      else getLineStart_loop target cs (i + 1) line)"

definition getLineStart :: "'a textLayer_scheme \<Rightarrow> nat \<Rightarrow> nat" where
  "getLineStart t targetLineIndex =
     (if targetLineIndex = 0 then 0
      else getLineStart_loop targetLineIndex (contents t) 0 0)"

text \<open>\<open>getLineLengths\<close>: \<open>lengths = [0]\<close>; a break pushes \<open>0\<close>, any other character
  increments the last entry.\<close>

definition getLineLengths :: "'a textLayer_scheme \<Rightarrow> nat list" where
  "getLineLengths t =
     fold (\<lambda>c lengths.
             if c = newline then lengths @ [0]
             else lengths[length lengths - 1 := lengths ! (length lengths - 1) + 1])
       (contents t) [0]"

text \<open>
  \<open>getVerticalCursor(direction)\<close>. Line indices are natural numbers, so
  \<open>Math.max(0, currentLineIdx - 1)\<close> is the truncated subtraction; \<open>lineLens[i] || 0\<close> is
  \<open>0\<close> past the end of the array.
\<close>

definition getVerticalCursor :: "'a textLayer_scheme \<Rightarrow> string \<Rightarrow> int" where
  "getVerticalCursor t direction =
     (let currentLineIdx = getCurrentLine t;
          charOffsetInCurrentLine = getCursorLineOffset t;
          lineLens = getLineLengths t;
          targetLineIdx = (if direction = ''up'' then currentLineIdx - 1
                           else min (length lineLens - 1) (currentLineIdx + 1));
          targetLineStartIdx = getLineStart t targetLineIdx;
          targetLineLen = (if targetLineIdx < length lineLens then lineLens ! targetLineIdx else 0)
      in int targetLineStartIdx + min charOffsetInCurrentLine (int targetLineLen))"

text \<open>\<open>!this.tableId\<close>: \<open>null\<close> and the empty string are falsy.\<close>

definition hasTableId :: "'a layer_scheme \<Rightarrow> bool" where
  "hasTableId l = (case tableId l of None \<Rightarrow> False | Some i \<Rightarrow> truthy i)"

definition setStarterChar :: "'a textLayer_scheme \<Rightarrow> 'a textLayer_scheme" where
  "setStarterChar t =
     (if length (contents t) = 0 \<and> \<not> hasTableId t
      then t\<lparr>contents := [starterChar], cursor := 1, noWrites := True\<rparr>
      else t)"

definition checkNoWrites :: "'a textLayer_scheme \<Rightarrow> 'a textLayer_scheme" where
  "checkNoWrites t =
     (let t1 = (if noWrites t \<and> contents t \<noteq> [starterChar] then t\<lparr>noWrites := False\<rparr> else t)
      in if length (contents t1) = 0 \<and> \<not> hasTableId t1
         then (setStarterChar t1)\<lparr>noWrites := True\<rparr>
         else t1)"

text \<open>
  \<open>Array.prototype.splice(start, ...)\<close> counts a negative \<open>start\<close> from the end of the array
  (\<open>max(len + start, 0)\<close>) and takes a \<open>start\<close> beyond the end for the end. Then
  \<open>contents.splice(at, 0, ...chars)\<close> inserts and \<open>contents.splice(at, 1)\<close> deletes one
  element.
\<close>

definition spliceStart :: "nat \<Rightarrow> int \<Rightarrow> nat" where
  "spliceStart len start =
     (if start < 0 then nat (max (int len + start) 0) else nat (min start (int len)))"

definition spliceInsert :: "char list \<Rightarrow> int \<Rightarrow> char list \<Rightarrow> char list" where
  "spliceInsert cs at chars =
     take (spliceStart (length cs) at) cs @ chars @ drop (spliceStart (length cs) at) cs"

definition spliceDelete :: "char list \<Rightarrow> int \<Rightarrow> char list" where
  "spliceDelete cs at =
     take (spliceStart (length cs) at) cs @ drop (spliceStart (length cs) at + 1) cs"

text \<open>\<open>writeChar(key)\<close>: \<open>key\<close> is the \<open>KeyboardEvent.key\<close> string.\<close>

definition writeChar :: "string \<Rightarrow> 'a textLayer_scheme \<Rightarrow> 'a textLayer_scheme" where
  "writeChar key t0 =
     (let len = int (length (contents t0));
          t = t0\<lparr>cursor := max 0 (min (cursor t0) len)\<rparr>;
          t' =
           (if key = ''ArrowDown'' then t\<lparr>cursor := getVerticalCursor t ''down''\<rparr>
            else if key = ''ArrowUp'' then t\<lparr>cursor := getVerticalCursor t ''up''\<rparr>
            else if key = ''ArrowRight'' then t\<lparr>cursor := min len (cursor t + 1)\<rparr>
            else if key = ''ArrowLeft'' then t\<lparr>cursor := max 0 (cursor t - 1)\<rparr>
            else if key = ''Enter''
              then t\<lparr>contents := spliceInsert (contents t) (cursor t) [newline],
                     cursor := cursor t + 1\<rparr>
            else if key = ''Backspace''
              then (if cursor t > 0
                    then t\<lparr>contents := spliceDelete (contents t) (cursor t - 1),
                           cursor := cursor t - 1\<rparr>
                    else t)
            else if key = ''Delete''
              then (if cursor t < len
                    then t\<lparr>contents := spliceDelete (contents t) (cursor t)\<rparr>
                    else t)
            else (if length key = 1
                  then t\<lparr>contents := spliceInsert (contents t) (cursor t) key,
                         cursor := cursor t + 1\<rparr>
                  else t))
      in checkNoWrites t')"

text \<open>\<open>paste(textToPaste)\<close>: the empty string is falsy; carriage returns are dropped.\<close>

definition paste :: "string \<Rightarrow> 'a textLayer_scheme \<Rightarrow> 'a textLayer_scheme" where
  "paste textToPaste t =
     (if textToPaste = [] then t
      else (let chars = filter (\<lambda>char. char \<noteq> carriageReturn) textToPaste
            in checkNoWrites
                 (t\<lparr>contents := spliceInsert (contents t) (cursor t) chars,
                    cursor := cursor t + int (length chars)\<rparr>)))"

text \<open>
  \<open>TextLayer.draw(keyOrText)\<close>, up to its \<open>commit\<close>: a string of length 1 goes to
  \<open>writeChar\<close>, any other string to \<open>paste\<close>. (The functions of the \<open>commit\<close> that follows
  are an empty function and \<open>drawLayer\<close>, which never writes \<open>cursor\<close> and leaves \<open>contents\<close>
  alone unless the text runs off the canvas, where it cuts it.)
  \<open>TextLayer.keyDownEvent\<close> is \<open>currentTextLayer.draw(event.key)\<close>, for every key, and it holds
  the only call of \<open>draw\<close> with a key; \<open>draw\<close> holds the only call of \<open>writeChar\<close>.
\<close>

definition draw :: "string \<Rightarrow> 'a textLayer_scheme \<Rightarrow> 'a textLayer_scheme" where
  "draw keyOrText t =
     (if length keyOrText = 1 then writeChar keyOrText t else paste keyOrText t)"

text \<open>A text layer value for the concrete instances below: a fresh layer (no table) with
  the given contents and cursor.\<close>

definition sampleText :: "char list \<Rightarrow> int \<Rightarrow> textLayer" where
  "sampleText cs k =
     layer.extend (sampleLayer Text ''T1'' \<lparr>row = 0, col = 0\<rparr> [] 1)
       \<lparr>contents = cs, cursor = k, noWrites = False\<rparr>"

text \<open>
  Two notions used only to state what the loops above compute: the lines of a text (its
  maximal runs between line breaks) and the index at which line \<open>t\<close> starts.
\<close>

fun linesOf :: "char list \<Rightarrow> char list list" where
  "linesOf [] = [[]]"
| "linesOf (c # cs) =
     (if c = newline then [] # linesOf cs
      else (c # hd (linesOf cs)) # tl (linesOf cs))"

definition lineStartOf :: "char list \<Rightarrow> nat \<Rightarrow> nat" where
  "lineStartOf cs t = sum_list (map (\<lambda>l. length l + 1) (take t (linesOf cs)))"

section \<open>StepLineLayer: choosing the orientation\<close>

text \<open>
  \<open>BaseLineLayer\<close> adds the two arrow flags to a layer and \<open>StepLineLayer\<close> the field
  \<open>verticalFirstPreference\<close> (initially \<open>false\<close>).
\<close>

record stepLineLayer = layer +
  hasArrowLeft :: bool
  hasArrowRight :: bool
  verticalFirstPreference :: bool

text \<open>
  \<open>charManager\<close> is defined in a part of the program that is not in \<open>src/\<close>; the four
  functions the step line calls are parameters, each returning a character (never
  \<open>undefined\<close>).
\<close>

record charManager =
  getArrow :: "string \<Rightarrow> string"
  getLateralLine :: "string \<Rightarrow> string"
  getVerticalLine :: "string \<Rightarrow> string"
  getCorner :: "string \<Rightarrow> string \<Rightarrow> string"

text \<open>
  \<open>Layer.setToPixel\<close>, \<open>Layer.empty\<close> (\<open>clear()\<close> only touches the display) and
  \<open>Layer.add(pixel, value)\<close>, which ignores a \<open>null\<close> pixel (and a value that is
  \<open>undefined\<close>, which the character manager is taken never to return).
\<close>

definition setToPixel :: "pixel option \<Rightarrow> 'a layer_scheme \<Rightarrow> 'a layer_scheme" where
  "setToPixel p l = l\<lparr>toPixel := p\<rparr>"

definition empty_layer :: "'a layer_scheme \<Rightarrow> 'a layer_scheme" where
  "empty_layer l = l\<lparr>pixels := [], values' := []\<rparr>"

definition Layer_add :: "pixel option \<Rightarrow> string \<Rightarrow> 'a layer_scheme \<Rightarrow> 'a layer_scheme" where
  "Layer_add p v l =
     (case p of
        None \<Rightarrow> l
      | Some q \<Rightarrow> l\<lparr>pixels := pixels l @ [Some q], values' := values' l @ [v]\<rparr>)"

text \<open>
  \<open>Layer.getNearOverlappingCount(targetLayer)\<close>: how many cells of \<open>this\<close> are on or next to
  a cell of \<open>targetLayer\<close>. Each cell of \<open>this\<close> is counted once, when one of the nine
  \<open>directions\<close> leads to a canvas pixel whose id is among the ids of the target's pixels.
\<close>

definition directions :: "(int \<times> int) list" where
  "directions = [(0, 0), (1, 0), (- 1, 0), (0, 1), (0, - 1), (1, 1), (1, - 1), (- 1, 1), (- 1, - 1)]"

definition Layer_getNearOverlappingCount ::
  "canvas \<Rightarrow> 'a layer_scheme \<Rightarrow> 'b layer_scheme option \<Rightarrow> nat" where
  "Layer_getNearOverlappingCount cv this targetLayer =
     (case targetLayer of
        None \<Rightarrow> 0
      | Some target \<Rightarrow>
          if lid target = lid this \<or> length (pixels this) = 0 then 0
          else length (filter
                 (\<lambda>pixel. case pixel of
                    None \<Rightarrow> False
                  | Some p \<Rightarrow>
                      list_ex (\<lambda>(dr, dc).
                         case getPixelByRowCol cv (row p + dr) (col p + dc) of
                           None \<Rightarrow> False
                         | Some nearPixel \<Rightarrow> Some nearPixel \<in> set (pixels target))
                        directions)
                 (pixels this)))"

text \<open>
  \<open>LayerManager.getNearOverlappingCount(subjectLayer, withLayerTypes = null)\<close>: the sum of
  the counts of the other layers against the subject, over the layers whose type is in
  \<open>withLayerTypes\<close> (all other layers when it is \<open>null\<close>).
\<close>

definition getNearOverlappingCount ::
  "canvas \<Rightarrow> 'b layer_scheme layerManager \<Rightarrow> 'a layer_scheme option \<Rightarrow> kind list option \<Rightarrow> nat" where
  "getNearOverlappingCount cv m subjectLayer withLayerTypes =
     (case subjectLayer of
        None \<Rightarrow> 0
      | Some subject \<Rightarrow>
          fold (\<lambda>layer count.
                  if lid layer = lid subject then count
                  else if (case withLayerTypes of
                             None \<Rightarrow> False
                           | Some types \<Rightarrow> kind layer \<notin> set types) then count
                  else count + Layer_getNearOverlappingCount cv layer (Some subject))
               (layers m) 0)"

text \<open>\<open>StepLineLayer.getArrowChars(fp, tp, verticalFirst)\<close>: the pair \<open>[start, end]\<close>.\<close>

definition getArrowChars ::
  "charManager \<Rightarrow> pixel \<Rightarrow> pixel \<Rightarrow> bool \<Rightarrow> 'a stepLineLayer_scheme \<Rightarrow> string \<times> string" where
  "getArrowChars cm fp tp verticalFirst l =
     (let start0 = (if verticalFirst then getVerticalLine cm (lineForm l)
                    else getLateralLine cm (lineForm l));
          end0 = (if verticalFirst then getLateralLine cm (lineForm l)
                  else getVerticalLine cm (lineForm l))
      in if row fp = row tp \<and> col fp = col tp
         then (if hasArrowLeft l then getArrow cm ''left'' else start0, end0)
         else
           let start1 =
                 (if hasArrowLeft l
                  then (if verticalFirst
                        then (if row tp > row fp then getArrow cm ''down'' else getArrow cm ''up'')
                        else (if col tp > col fp then getArrow cm ''right''
                              else getArrow cm ''left''))
                  else start0);
               end1 =
                 (if hasArrowRight l
                  then (if verticalFirst
                        then (if col tp > col fp then getArrow cm ''right''
                              else getArrow cm ''left'')
                        else (if row tp > row fp then getArrow cm ''down'' else getArrow cm ''up''))
                  else end0);
               end2 = (if row fp = row tp \<and> \<not> verticalFirst then start1 else end1);
               end3 = (if col fp = col tp \<and> verticalFirst then start1 else end2)
           in (start1, end3))"

text \<open>\<open>StepLineLayer.getCornerChar(fp, tp, verticalFirst)\<close>.\<close>

definition getCornerChar ::
  "charManager \<Rightarrow> pixel \<Rightarrow> pixel \<Rightarrow> bool \<Rightarrow> 'a stepLineLayer_scheme \<Rightarrow> string" where
  "getCornerChar cm fp tp verticalFirst l =
     (if verticalFirst
      then (if row tp > row fp
            then (if col tp > col fp then getCorner cm (lineForm l) ''top-left''
                  else getCorner cm (lineForm l) ''top-right'')
            else (if col tp > col fp then getCorner cm (lineForm l) ''bottom-left''
                  else getCorner cm (lineForm l) ''bottom-right''))
      else (if col tp > col fp
            then (if row tp > row fp then getCorner cm (lineForm l) ''top-right''
                  else getCorner cm (lineForm l) ''bottom-right'')
            else (if row tp > row fp then getCorner cm (lineForm l) ''top-left''
                  else getCorner cm (lineForm l) ''bottom-left'')))"

text \<open>\<open>pixels.findIndex(p => p.id() === cornerPixel.id())\<close>; \<open>None\<close> is \<open>-1\<close>.\<close>

fun findIndex :: "('a \<Rightarrow> bool) \<Rightarrow> 'a list \<Rightarrow> nat option" where
  "findIndex P [] = None"
| "findIndex P (x # xs) =
     (if P x then Some 0 else (case findIndex P xs of None \<Rightarrow> None | Some i \<Rightarrow> Some (Suc i)))"

text \<open>
  \<open>StepLineLayer.drawFromTo(fp, tp, preferVerticalFirst)\<close>. It empties the layer, then adds
  the cells of the first segment and of the second segment (a \<open>for\<close> loop each, a \<open>fold\<close>
  over \<open>[0..\<bar>dRow\<bar>]\<close> or \<open>[0..\<bar>dCol\<bar>]\<close>; \<open>Math.sign\<close> is \<open>sgn\<close>), then writes the corner
  character. \<open>pixels\<close> and \<open>values\<close> grow together from empty, so the index found in
  \<open>pixels\<close> is inside \<open>values\<close>.
\<close>

definition drawFromTo ::
  "charManager \<Rightarrow> canvas \<Rightarrow> pixel \<Rightarrow> pixel \<Rightarrow> bool \<Rightarrow> 'a stepLineLayer_scheme
     \<Rightarrow> 'a stepLineLayer_scheme" where
  "drawFromTo cm cv fp tp preferVerticalFirst this =
     (let l = empty_layer this in
      if is_pixel fp (Some tp)
      then Layer_add (Some fp)
             (if hasArrowLeft l then getArrow cm ''left'' else getLateralLine cm (lineForm l)) l
      else
        let latChar = getLateralLine cm (lineForm l);
            vertChar = getVerticalLine cm (lineForm l);
            dRow = row tp - row fp;
            dCol = col tp - col fp;
            startChar = fst (getArrowChars cm fp tp preferVerticalFirst l);
            endChar = snd (getArrowChars cm fp tp preferVerticalFirst l);
            cornerR = (if preferVerticalFirst then row tp else row fp);
            cornerC = (if preferVerticalFirst then col fp else col tp);
            l2 =
              (if preferVerticalFirst
               then
                 fold (\<lambda>c. Layer_add (getPixelByRowCol cv (row tp) (col fp + c * sgn dCol))
                              (if col fp + c * sgn dCol = col tp then endChar else latChar))
                   [(if dRow = 0 then 0 else 1)..\<bar>dCol\<bar>]
                   (fold (\<lambda>r. Layer_add (getPixelByRowCol cv (row fp + r * sgn dRow) (col fp))
                                 (if row fp + r * sgn dRow = row tp \<and> dCol = 0 then endChar
                                  else if row fp + r * sgn dRow = row fp then startChar
                                  else vertChar))
                      [0..\<bar>dRow\<bar>] l)
               else
                 fold (\<lambda>r. Layer_add (getPixelByRowCol cv (row fp + r * sgn dRow) (col tp))
                              (if row fp + r * sgn dRow = row tp then endChar else vertChar))
                   [(if dCol = 0 then 0 else 1)..\<bar>dRow\<bar>]
                   (fold (\<lambda>c. Layer_add (getPixelByRowCol cv (row fp) (col fp + c * sgn dCol))
                                 (if col fp + c * sgn dCol = col tp \<and> dRow = 0 then endChar
                                  else if col fp + c * sgn dCol = col fp then startChar
                                  else latChar))
                      [0..\<bar>dCol\<bar>] l))
        in if dRow \<noteq> 0 \<and> dCol \<noteq> 0
           then (case getPixelByRowCol cv cornerR cornerC of
                   None \<Rightarrow> l2
                 | Some cornerPixel \<Rightarrow>
                     (case findIndex (\<lambda>p. p = Some cornerPixel) (pixels l2) of
                        Some existingIndex \<Rightarrow>
                          l2\<lparr>values' := (values' l2)
                                [existingIndex := getCornerChar cm fp tp preferVerticalFirst l2]\<rparr>
                      | None \<Rightarrow>
                          Layer_add (Some cornerPixel)
                            (getCornerChar cm fp tp preferVerticalFirst l2) l2))
           else l2)"

text \<open>
  \<open>StepLineLayer.drawLayer(activePixel)\<close>, with the layer manager and the canvas it reads
  as parameters. \<open>layersToAvoid\<close> is the list of types it passes to
  \<open>layerManager.getNearOverlappingCount\<close>.
\<close>

definition layersToAvoid :: "kind list" where
  "layersToAvoid = [Text, Square, Circle, Diamond, Table]"

definition drawLayer ::
  "charManager \<Rightarrow> canvas \<Rightarrow> 'b layer_scheme layerManager \<Rightarrow> pixel option
     \<Rightarrow> 'a stepLineLayer_scheme \<Rightarrow> 'a stepLineLayer_scheme" where
  "drawLayer cm cv m activePixel this =
     (let l = setToPixel activePixel this in
      case fromPixel l of
        None \<Rightarrow> empty_layer l
      | Some fp \<Rightarrow>
         (case toPixel l of
            None \<Rightarrow> empty_layer l
          | Some tp \<Rightarrow>
              let currentPixels = pixels l;
                  currentValues = values' l;
                  lH = drawFromTo cm cv fp tp False l;
                  overlapHfirst = getNearOverlappingCount cv m (Some lH) (Some layersToAvoid);
                  pixelsHfirst = pixels lH;
                  valuesHfirst = values' lH;
                  lV = drawFromTo cm cv fp tp True
                         (lH\<lparr>pixels := currentPixels, values' := currentValues\<rparr>);
                  overlapVfirst = getNearOverlappingCount cv m (Some lV) (Some layersToAvoid)
              in if verticalFirstPreference lV
                 then (if overlapVfirst \<le> overlapHfirst + 2 then lV
                       else lV\<lparr>pixels := pixelsHfirst, values' := valuesHfirst\<rparr>)
                 else (if overlapHfirst \<le> overlapVfirst + 2
                       then lV\<lparr>pixels := pixelsHfirst, values' := valuesHfirst\<rparr>
                       else lV)))"

text \<open>
  The rule as the specification words it, to be compared with \<open>drawLayer\<close>: the two
  orientations, the preferred one, the near-overlap count of a raster with the layers of
  the kinds that count (a cell of such a layer counts when it is on a canvas cell of the
  raster, or on one of the eight neighbours of one), and the orientation kept: the
  preferred one when its count exceeds the other's by at most the tie margin, otherwise
  the one with fewer near-overlaps.
\<close>

datatype orientation = HorizontalFirst | VerticalFirst

fun otherOrientation :: "orientation \<Rightarrow> orientation" where
  "otherOrientation HorizontalFirst = VerticalFirst"
| "otherOrientation VerticalFirst = HorizontalFirst"

definition spec_preferred :: "'a stepLineLayer_scheme \<Rightarrow> orientation" where
  "spec_preferred l = (if verticalFirstPreference l then VerticalFirst else HorizontalFirst)"

definition spec_tieMargin :: nat where
  "spec_tieMargin = 2"

definition spec_nearCell :: "canvas \<Rightarrow> pixel \<Rightarrow> pixel \<Rightarrow> bool" where
  "spec_nearCell cv p q =
     (\<bar>row q - row p\<bar> \<le> 1 \<and> \<bar>col q - col p\<bar> \<le> 1 \<and> getPixelById cv q \<noteq> None)"

definition spec_nearOverlaps ::
  "(kind \<Rightarrow> bool) \<Rightarrow> canvas \<Rightarrow> 'b layer_scheme layerManager \<Rightarrow> 'a layer_scheme \<Rightarrow> nat" where
  "spec_nearOverlaps counts cv m line =
     sum_list (map (\<lambda>shape. length (filter (\<lambda>p. list_ex (spec_nearCell cv p)
                                                   (filterBoolean (pixels line)))
                                        (filterBoolean (pixels shape))))
                 (filter (\<lambda>shape. lid shape \<noteq> lid line \<and> counts (kind shape)) (layers m)))"

definition spec_kept :: "orientation \<Rightarrow> (orientation \<Rightarrow> nat) \<Rightarrow> orientation" where
  "spec_kept preferred overlaps =
     (if overlaps preferred \<le> overlaps (otherOrientation preferred) + spec_tieMargin
      then preferred
      else if overlaps HorizontalFirst < overlaps VerticalFirst then HorizontalFirst
      else VerticalFirst)"

text \<open>The kinds that count: every kind that is not a line, as the specification has it,
  and the kinds \<open>drawLayer\<close> lists.\<close>

definition spec_nonLineShape :: "kind \<Rightarrow> bool" where
  "spec_nonLineShape k = (\<not> isLineKind k)"

definition spec_listedShape :: "kind \<Rightarrow> bool" where
  "spec_listedShape k = (k = Text \<or> k = Square \<or> k = Circle \<or> k = Diamond \<or> k = Table)"

text \<open>The raster of an orientation: what \<open>drawFromTo\<close> draws for it.\<close>

definition rasterOf ::
  "charManager \<Rightarrow> canvas \<Rightarrow> pixel \<Rightarrow> pixel \<Rightarrow> 'a stepLineLayer_scheme \<Rightarrow> orientation
     \<Rightarrow> 'a stepLineLayer_scheme" where
  "rasterOf cm cv fp tp l orientation =
     drawFromTo cm cv fp tp (orientation = VerticalFirst) l"

text \<open>
  For the concrete instances below: a step line \<open>S\<close> anchored at (5, 5) with the
  constructor's defaults and the given preference, ASCII characters for the character
  manager, and a layer \<open>Q\<close> of the given kind with the given cells.
\<close>

definition sampleStep :: "bool \<Rightarrow> stepLineLayer" where
  "sampleStep vfp =
     layer.extend (sampleLayer StepLine ''S'' \<lparr>row = 5, col = 5\<rparr> [] 9)
       \<lparr>hasArrowLeft = False, hasArrowRight = False, verticalFirstPreference = vfp\<rparr>"

definition sampleChars :: charManager where
  "sampleChars =
     \<lparr>getArrow = (\<lambda>d. ''>''), getLateralLine = (\<lambda>f. ''-''), getVerticalLine = (\<lambda>f. ''|''),
      getCorner = (\<lambda>f c. ''+'')\<rparr>"

definition sampleShape :: "kind \<Rightarrow> pixel list \<Rightarrow> layer" where
  "sampleShape k ps = sampleLayer k ''Q'' \<lparr>row = 4, col = 7\<rparr> ps 1"

section \<open>Theorems\<close>

subsection \<open>History\<close>

lemma capture_layerHistory:
  "layerHistory (capture cp m) =
     cp (layers m) # (if 50 < length (layerHistory m)
                      then butlast (layerHistory m) else layerHistory m)"
  by (simp add: capture_def Let_def)

lemma capture_layerGroupHistory:
  "layerGroupHistory (groupManager (capture cp m)) =
     layerGroups (groupManager m) #
       (if 50 < length (layerGroupHistory (groupManager m))
        then butlast (layerGroupHistory (groupManager m))
        else layerGroupHistory (groupManager m))"
  by (simp add: capture_def GroupManager_capture_def Let_def)

lemma captures_layerHistory_length:
  "length (layerHistory m) \<le> 51 \<Longrightarrow>
   length (layerHistory (captures cp steps m)) = min (length (layerHistory m) + length steps) 51"
proof (induction steps arbitrary: m)
  case Nil
  then show ?case by simp
next
  case (Cons s steps)
  obtain ls gs where s: "s = (ls, gs)" by (cases s)
  let ?m = "capture cp (m\<lparr>layers := ls, groupManager := (groupManager m)\<lparr>layerGroups := gs\<rparr>\<rparr>)"
  have len: "length (layerHistory ?m) =
      (if 50 < length (layerHistory m) then length (layerHistory m)
       else length (layerHistory m) + 1)"
    by (auto simp: capture_layerHistory)
  with Cons.prems have "length (layerHistory ?m) \<le> 51" by (simp split: if_splits)
  from Cons.IH [OF this] len Cons.prems show ?case
    by (simp add: s split: if_splits)
qed

lemma captures_layerGroupHistory_length:
  "length (layerGroupHistory (groupManager m)) \<le> 51 \<Longrightarrow>
   length (layerGroupHistory (groupManager (captures cp steps m))) =
     min (length (layerGroupHistory (groupManager m)) + length steps) 51"
proof (induction steps arbitrary: m)
  case Nil
  then show ?case by simp
next
  case (Cons s steps)
  obtain ls gs where s: "s = (ls, gs)" by (cases s)
  let ?m = "capture cp (m\<lparr>layers := ls, groupManager := (groupManager m)\<lparr>layerGroups := gs\<rparr>\<rparr>)"
  have len: "length (layerGroupHistory (groupManager ?m)) =
      (if 50 < length (layerGroupHistory (groupManager m))
       then length (layerGroupHistory (groupManager m))
       else length (layerGroupHistory (groupManager m)) + 1)"
    by (auto simp: capture_layerGroupHistory)
  with Cons.prems have "length (layerGroupHistory (groupManager ?m)) \<le> 51"
    by (simp split: if_splits)
  from Cons.IH [OF this] len Cons.prems show ?case
    by (simp add: s split: if_splits)
qed

text \<open>
  C3 (as amended). From the constructor's state, after any sequence of captures (with
  arbitrary edits of the live layers and groups in between) the layer history and the
  group history hold \<open>min (n + 1) 51\<close> entries after \<open>n\<close> captures, so never more than 51: the
  guard is \<open>length > 50\<close>, tested before the push. Each capture pushes the new entry at the
  front and, when the stack already holds more than 50 entries, evicts the entry at the
  back, the oldest one.
\<close>

theorem capture_history_bound:
  "length (layerHistory (captures cp steps LayerManager_new)) = min (length steps + 1) 51
   \<and> length (layerGroupHistory (groupManager (captures cp steps LayerManager_new)))
       = min (length steps + 1) 51
   \<and> layerHistory (capture cp m) =
       cp (layers m) # (if 50 < length (layerHistory m)
                        then butlast (layerHistory m) else layerHistory m)
   \<and> layerGroupHistory (groupManager (capture cp m)) =
       layerGroups (groupManager m) #
         (if 50 < length (layerGroupHistory (groupManager m))
          then butlast (layerGroupHistory (groupManager m))
          else layerGroupHistory (groupManager m))"
proof -
  have a: "length (layerHistory (LayerManager_new :: 'a layerManager)) = 1"
    and b: "length (layerGroupHistory (groupManager (LayerManager_new :: 'a layerManager))) = 1"
    by (simp_all add: LayerManager_new_def GroupManager_new_def)
  have "length (layerHistory (captures cp steps LayerManager_new)) = min (length steps + 1) 51"
    using captures_layerHistory_length [of LayerManager_new cp steps] a by (simp add: add.commute)
  moreover have "length (layerGroupHistory (groupManager (captures cp steps LayerManager_new)))
       = min (length steps + 1) 51"
    using captures_layerGroupHistory_length [of LayerManager_new cp steps] b
    by (simp add: add.commute)
  ultimately show ?thesis
    by (simp only: capture_layerHistory capture_layerGroupHistory simp_thms)
qed

text \<open>Three captures from the constructor's state: four entries, the newest first.\<close>

theorem capture_history_bound_witness:
  "length (layerHistory (captures (\<lambda>ls. ls) [([1::nat], []), ([2], []), ([3], [])] LayerManager_new)) = 4
   \<and> layerHistory (capture (\<lambda>ls. ls)
        \<lparr>layers = [7::nat], layerHistory = [[1], [2]], historyCursor = 0,
         groupManager = GroupManager_new\<rparr>) = [[7], [1], [2]]"
  using capture_history_bound [of "\<lambda>ls. ls" "[([1::nat], []), ([2], []), ([3], [])]"
      "\<lparr>layers = [7::nat], layerHistory = [[1], [2]], historyCursor = 0,
         groupManager = GroupManager_new\<rparr>"]
  by simp

text \<open>
  The claim as stated fails: after 50 captures from the constructor's state both stacks
  hold 51 entries.
\<close>

theorem capture_history_bound_counterexample:
  "length (layerHistory (captures (\<lambda>ls. ls) (replicate 50 ([]::nat list, [])) LayerManager_new)) = 51
   \<and> length (layerGroupHistory (groupManager
        (captures (\<lambda>ls. ls) (replicate 50 ([]::nat list, [])) LayerManager_new))) = 51"
proof -
  have a: "length (layerHistory (LayerManager_new :: nat layerManager)) \<le> 51"
    and b: "length (layerGroupHistory (groupManager (LayerManager_new :: nat layerManager))) \<le> 51"
    by (simp_all add: LayerManager_new_def GroupManager_new_def)
  show ?thesis
    using captures_layerHistory_length [OF a, of "\<lambda>ls. ls" "replicate 50 ([], [])"]
      captures_layerGroupHistory_length [OF b, of "\<lambda>ls. ls" "replicate 50 ([], [])"]
    by (simp add: LayerManager_new_def GroupManager_new_def)
qed

subsection \<open>Groups\<close>

lemma groupsOk_groupLayers:
  "groupsOk gm \<Longrightarrow> groupLayers ls gm = Inr gm' \<Longrightarrow> groupsOk gm'"
  by (auto simp: groupLayers_def groupsOk_def Let_def split: option.splits if_splits)

lemma groupsOk_ungroupLayers: "groupsOk gm \<Longrightarrow> groupsOk (ungroupLayers ls gm)"
  by (auto simp: ungroupLayers_def groupsOk_def Let_def list_all_iff split: option.splits)

lemma groupsOk_tidy: "groupsOk gm \<Longrightarrow> groupsOk (tidy ds gm)"
  by (auto simp: tidy_def groupsOk_def Let_def list_all_iff split: option.splits)

lemma groupsOk_groupStep: "groupsOk gm \<Longrightarrow> groupsOk (groupStep gm c)"
  by (cases c)
    (auto simp: groupsOk_ungroupLayers groupsOk_tidy split: sum.splits
      intro: groupsOk_groupLayers)

lemma groupsOk_foldl: "groupsOk gm \<Longrightarrow> groupsOk (foldl groupStep gm calls)"
  by (induction calls arbitrary: gm) (simp_all add: groupsOk_groupStep)

text \<open>
  C10. Starting from the empty group list, after every sequence of \<open>groupLayers\<close>,
  \<open>ungroupLayers\<close> and \<open>tidy\<close> calls every stored group holds at least two ids. \<open>groupLayers\<close>
  stores nothing when the layers yield fewer than two (truthy) ids or when a stored group
  has the signature of the new one, and \<open>tidy\<close> with a non-empty list of deleted ids keeps
  exactly the groups that still have two members after the deleted ids are removed.
\<close>

theorem groups_hold_two_ids:
  "groupsOk (groupRun calls GroupManager_new)
   \<and> (length (filter truthy (map lid ls)) < 2 \<longrightarrow>
        groupLayers (Some (map Some ls)) gm = Inr gm)
   \<and> (list_ex (\<lambda>g. signature g = signature (filter truthy (map lid ls))) (layerGroups gm) \<longrightarrow>
        groupLayers (Some (map Some ls)) gm = Inr gm)
   \<and> (ds \<noteq> [] \<longrightarrow>
        layerGroups (tidy (Some ds) gm) =
          filter (\<lambda>g. 2 \<le> length g) (map (filter (\<lambda>i. i \<notin> set ds)) (layerGroups gm)))"
proof -
  have "groupsOk GroupManager_new"
    by (simp add: groupsOk_def GroupManager_new_def)
  then have "groupsOk (groupRun calls GroupManager_new)"
    unfolding groupRun_def by (rule groupsOk_foldl)
  moreover have "length (filter truthy (map lid ls)) < 2 \<longrightarrow>
        groupLayers (Some (map Some ls)) gm = Inr gm"
    by (simp add: groupLayers_def Let_def list_all_iff comp_def)
  moreover have
    "list_ex (\<lambda>g. signature g = signature (filter truthy (map lid ls))) (layerGroups gm) \<longrightarrow>
        groupLayers (Some (map Some ls)) gm = Inr gm"
    by (simp add: groupLayers_def Let_def list_all_iff comp_def)
  moreover have "ds \<noteq> [] \<longrightarrow>
        layerGroups (tidy (Some ds) gm) =
          filter (\<lambda>g. 2 \<le> length g) (map (filter (\<lambda>i. i \<notin> set ds)) (layerGroups gm))"
  proof -
    have "(\<lambda>g::string list. 1 < length g) = (\<lambda>g. 2 \<le> length g)" by auto
    then show ?thesis by (simp add: tidy_def)
  qed
  ultimately show ?thesis by blast
qed

text \<open>Two layers grouped, a single layer refused, a duplicate refused, a group tidied away.\<close>

theorem groups_hold_two_ids_witness:
  "groupsOk (groupRun
      [GroupLayers (Some [Some (sampleLayer Square ''L1'' \<lparr>row = 0, col = 0\<rparr> [] 1),
                          Some (sampleLayer Square ''L2'' \<lparr>row = 0, col = 0\<rparr> [] 2)]),
       Tidy (Some [''L9''])] GroupManager_new)
   \<and> groupLayers (Some (map Some [sampleLayer Square ''L1'' \<lparr>row = 0, col = 0\<rparr> [] 1]))
        GroupManager_new = Inr GroupManager_new
   \<and> groupLayers
        (Some (map Some [sampleLayer Square ''L2'' \<lparr>row = 0, col = 0\<rparr> [] 2,
                         sampleLayer Square ''L1'' \<lparr>row = 0, col = 0\<rparr> [] 1]))
        \<lparr>layerGroups = [[''L1'', ''L2'']], layerGroupHistory = [[]]\<rparr>
       = Inr \<lparr>layerGroups = [[''L1'', ''L2'']], layerGroupHistory = [[]]\<rparr>
   \<and> layerGroups (tidy (Some [''L2''])
        \<lparr>layerGroups = [[''L1'', ''L2''], [''L1'', ''L2'', ''L3'']], layerGroupHistory = [[]]\<rparr>)
       = [[''L1'', ''L3'']]"
  using
    groups_hold_two_ids [of
      "[GroupLayers (Some [Some (sampleLayer Square ''L1'' \<lparr>row = 0, col = 0\<rparr> [] 1),
                           Some (sampleLayer Square ''L2'' \<lparr>row = 0, col = 0\<rparr> [] 2)]),
        Tidy (Some [''L9''])]"
      "[sampleLayer Square ''L1'' \<lparr>row = 0, col = 0\<rparr> [] 1]" GroupManager_new "[''L2'']"]
    groups_hold_two_ids [of "[]"
      "[sampleLayer Square ''L2'' \<lparr>row = 0, col = 0\<rparr> [] 2,
        sampleLayer Square ''L1'' \<lparr>row = 0, col = 0\<rparr> [] 1]"
      "\<lparr>layerGroups = [[''L1'', ''L2'']], layerGroupHistory = [[]]\<rparr>" "[''L2'']"]
    groups_hold_two_ids [of "[]" "[]"
      "\<lparr>layerGroups = [[''L1'', ''L2''], [''L1'', ''L2'', ''L3'']], layerGroupHistory = [[]]\<rparr>"
      "[''L2'']"]
  by (simp add: sampleLayer_def truthy_def signature_def less_eq_char_def less_char_def
      groupLayers_def tidy_def GroupManager_new_def)

subsection \<open>Text layer: lines, offsets and the vertical cursor\<close>

lemma linesOf_nonempty [simp]: "linesOf cs \<noteq> []"
  by (induction cs) auto

lemma length_linesOf: "length (linesOf cs) = length (filter (\<lambda>c. c = newline) cs) + 1"
  by (induction cs) auto

lemma lineStartOf_0 [simp]: "lineStartOf cs 0 = 0"
  by (simp add: lineStartOf_def)

lemma lineStartOf_newline [simp]:
  "lineStartOf (newline # cs) (Suc m) = Suc (lineStartOf cs m)"
  by (simp add: lineStartOf_def)

lemma lineStartOf_other [simp]:
  "c \<noteq> newline \<Longrightarrow> lineStartOf (c # cs) (Suc m) = Suc (lineStartOf cs (Suc m))"
  by (cases "linesOf cs") (simp_all add: lineStartOf_def)

lemma currentLine_fold:
  "fold (\<lambda>i line. if isNewlineAt cs i then line + 1 else line) [0..<k] n
     = n + length (filter (\<lambda>c. c = newline) (take k cs))"
proof (induction k)
  case 0
  then show ?case by simp
next
  case (Suc k)
  show ?case
  proof (cases "k < length cs")
    case True
    then show ?thesis
      using Suc by (simp add: take_Suc_conv_app_nth isNewlineAt_def)
  next
    case False
    then show ?thesis using Suc by (simp add: isNewlineAt_def)
  qed
qed

lemma offset_loop:
  "getCursorLineOffset_loop cs k
     = min k (length cs) - length (takeWhile (\<lambda>c. c \<noteq> newline) (rev (take k cs)))"
proof (induction k)
  case 0
  then show ?case by simp
next
  case (Suc k)
  show ?case
  proof (cases "k < length cs")
    case True
    have "length (takeWhile (\<lambda>c. c \<noteq> newline) (rev (take k cs))) \<le> k"
      using length_takeWhile_le [of "\<lambda>c. c \<noteq> newline" "rev (take k cs)"] by simp
    with True Suc show ?thesis
      by (auto simp: take_Suc_conv_app_nth isNewlineAt_def)
  next
    case False
    then show ?thesis using Suc by (simp add: isNewlineAt_def)
  qed
qed

lemma lineLengths_fold:
  "fold (\<lambda>c lengths.
           if c = newline then lengths @ [0]
           else lengths[length lengths - 1 := lengths ! (length lengths - 1) + 1])
        cs (acc @ [a])
     = acc @ (a + length (hd (linesOf cs))) # map length (tl (linesOf cs))"
proof (induction cs arbitrary: acc a)
  case Nil
  then show ?case by simp
next
  case (Cons c cs)
  show ?case
  proof (cases "c = newline")
    case True
    have "fold (\<lambda>c lengths.
           if c = newline then lengths @ [0]
           else lengths[length lengths - 1 := lengths ! (length lengths - 1) + 1])
        cs ((acc @ [a]) @ [0]) = (acc @ [a]) @ (0 + length (hd (linesOf cs))) # map length (tl (linesOf cs))"
      by (rule Cons.IH)
    with True show ?thesis by (cases "linesOf cs") simp_all
  next
    case False
    then show ?thesis using Cons.IH [of acc "a + 1"] by simp
  qed
qed

lemma getLineLengths_linesOf: "getLineLengths t = map length (linesOf (contents t))"
  using lineLengths_fold [of "contents t" "[]" 0]
  by (cases "linesOf (contents t)") (simp_all add: getLineLengths_def)

lemma lineStart_loop:
  "line < target \<Longrightarrow> target - line < length (linesOf cs) \<Longrightarrow>
   getLineStart_loop target cs i line = i + lineStartOf cs (target - line)"
proof (induction cs arbitrary: i line)
  case Nil
  then show ?case by simp
next
  case (Cons c cs)
  obtain m where m: "target - line = Suc m" using Cons.prems(1) by (cases "target - line") auto
  show ?case
  proof (cases "c = newline")
    case True
    show ?thesis
    proof (cases "line + 1 = target")
      case True
      with m have "m = 0" by simp
      with True \<open>c = newline\<close> m show ?thesis by simp
    next
      case False
      with Cons.prems m have a: "line + 1 < target" and b: "target - (line + 1) < length (linesOf cs)"
        and c: "target - (line + 1) = m"
        using \<open>c = newline\<close> by auto
      from Cons.IH [OF a b, of "i + 1"] c m \<open>c = newline\<close> False show ?thesis by simp
    qed
  next
    case False
    with Cons.prems have b: "target - line < length (linesOf cs)"
      by (cases "linesOf cs") auto
    from Cons.IH [OF Cons.prems(1) b, of "i + 1"] False m show ?thesis by simp
  qed
qed

lemma getLineStart_linesOf:
  "target < length (linesOf (contents t)) \<Longrightarrow> getLineStart t target = lineStartOf (contents t) target"
  using lineStart_loop [of 0 target "contents t" 0]
  by (cases "target = 0") (simp_all add: getLineStart_def)

lemma takeWhile_snoc_stop: "\<not> P y \<Longrightarrow> takeWhile P (xs @ [y]) = takeWhile P xs"
  by (induction xs) auto

lemma takeWhile_append_stop: "\<exists>x \<in> set xs. \<not> P x \<Longrightarrow> takeWhile P (xs @ ys) = takeWhile P xs"
  by (induction xs) auto

lemma position_in_line:
  "t < length (linesOf cs) \<Longrightarrow> j \<le> length (linesOf cs ! t) \<Longrightarrow>
   lineStartOf cs t + j \<le> length cs
   \<and> length (filter (\<lambda>c. c = newline) (take (lineStartOf cs t + j) cs)) = t
   \<and> length (takeWhile (\<lambda>c. c \<noteq> newline) (rev (take (lineStartOf cs t + j) cs))) = j"
proof (induction cs arbitrary: t j)
  case Nil
  then show ?case by simp
next
  case (Cons c cs)
  show ?case
  proof (cases "c = newline")
    case True
    show ?thesis
    proof (cases t)
      case 0
      with True Cons.prems show ?thesis by simp
    next
      case (Suc t')
      with True Cons.prems have "t' < length (linesOf cs)" "j \<le> length (linesOf cs ! t')" by auto
      from Cons.IH [OF this] True Suc show ?thesis
        by (simp add: takeWhile_snoc_stop)
    qed
  next
    case False
    show ?thesis
    proof (cases t)
      case 0
      show ?thesis
      proof (cases j)
        case 0
        with \<open>t = 0\<close> show ?thesis by simp
      next
        case (Suc j')
        with 0 False Cons.prems have "0 < length (linesOf cs)" "j' \<le> length (linesOf cs ! 0)"
          by (auto simp: hd_conv_nth)
        from Cons.IH [OF this] have
          le: "j' \<le> length cs" and
          nl: "length (filter (\<lambda>c. c = newline) (take j' cs)) = 0" and
          tw: "length (takeWhile (\<lambda>c. c \<noteq> newline) (rev (take j' cs))) = j'"
          by simp_all
        from nl have "\<forall>x \<in> set (rev (take j' cs)). x \<noteq> newline"
          by (auto simp: filter_empty_conv)
        then have "takeWhile (\<lambda>c. c \<noteq> newline) (rev (take j' cs) @ [c]) = rev (take j' cs) @ [c]"
          using False by (simp add: takeWhile_append)
        then have "length (takeWhile (\<lambda>c. c \<noteq> newline) (rev (take j' cs) @ [c]))
            = length (rev (take j' cs) @ [c])"
          by (rule arg_cong)
        then have "length (takeWhile (\<lambda>c. c \<noteq> newline) (rev (take j' cs) @ [c])) = Suc j'"
          using le by (simp only: length_append length_rev length_take list.size min.absorb2)
        with le nl False 0 Suc show ?thesis by simp
      qed
    next
      case (Suc t')
      with False Cons.prems have a: "Suc t' < length (linesOf cs)"
        and b: "j \<le> length (linesOf cs ! Suc t')"
        by (auto simp: nth_tl)
      from Cons.IH [OF a b] have
        le: "lineStartOf cs (Suc t') + j \<le> length cs" and
        nl: "length (filter (\<lambda>c. c = newline) (take (lineStartOf cs (Suc t') + j) cs)) = Suc t'" and
        tw: "length (takeWhile (\<lambda>c. c \<noteq> newline) (rev (take (lineStartOf cs (Suc t') + j) cs))) = j"
        by simp_all
      from nl have "\<exists>x \<in> set (rev (take (lineStartOf cs (Suc t') + j) cs)). \<not> x \<noteq> newline"
        by (metis (mono_tags, lifting) filter_empty_conv length_0_conv nat.distinct(1) set_rev)
      then have "takeWhile (\<lambda>c. c \<noteq> newline) (rev (take (lineStartOf cs (Suc t') + j) cs) @ [c])
          = takeWhile (\<lambda>c. c \<noteq> newline) (rev (take (lineStartOf cs (Suc t') + j) cs))"
        by (rule takeWhile_append_stop)
      with le nl tw False Suc show ?thesis by simp
    qed
  qed
qed


lemma getCurrentLine_count:
  "getCurrentLine t = length (filter (\<lambda>c. c = newline) (take (nat (cursor t)) (contents t)))"
  by (simp add: getCurrentLine_def currentLine_fold)

lemma getCurrentLine_less_lines: "getCurrentLine t < length (linesOf (contents t))"
proof -
  have "length (filter (\<lambda>c. c = newline) (take (nat (cursor t)) (contents t)))
      \<le> length (filter (\<lambda>c. c = newline) (take (nat (cursor t)) (contents t) @ drop (nat (cursor t)) (contents t)))"
    by (simp only: filter_append length_append)
  then show ?thesis by (simp add: getCurrentLine_count length_linesOf)
qed

lemma getCursorLineOffset_nonneg: "0 \<le> cursor t \<Longrightarrow> 0 \<le> getCursorLineOffset t"
  by (simp add: getCursorLineOffset_def offset_loop)

lemma getCursorLineOffset_in_range:
  "0 \<le> cursor t \<Longrightarrow> cursor t \<le> int (length (contents t)) \<Longrightarrow>
   getCursorLineOffset t =
     int (length (takeWhile (\<lambda>c. c \<noteq> newline) (rev (take (nat (cursor t)) (contents t)))))"
proof -
  assume a: "0 \<le> cursor t" "cursor t \<le> int (length (contents t))"
  have "length (takeWhile (\<lambda>c. c \<noteq> newline) (rev (take (nat (cursor t)) (contents t))))
      \<le> length (rev (take (nat (cursor t)) (contents t)))"
    by (rule length_takeWhile_le)
  with a show ?thesis by (simp add: getCursorLineOffset_def offset_loop)
qed

lemma vertical_cursor:
  fixes t :: "'a textLayer_scheme" and direction :: string
  assumes nonneg: "0 \<le> cursor t"
  defines "target \<equiv> (if direction = ''up'' then getCurrentLine t - 1
                      else min (length (getLineLengths t) - 1) (getCurrentLine t + 1))"
  defines "t' \<equiv> t\<lparr>cursor := getVerticalCursor t direction\<rparr>"
  shows "getCurrentLine t' = target"
    and "getCursorLineOffset t' = min (getCursorLineOffset t) (int (getLineLengths t ! target))"
    and "0 \<le> cursor t'" and "cursor t' \<le> int (length (contents t))"
proof -
  let ?cs = "contents t"
  have lens: "getLineLengths t = map length (linesOf ?cs)" by (rule getLineLengths_linesOf)
  have tl: "target < length (linesOf ?cs)"
    using getCurrentLine_less_lines [of t] by (auto simp: target_def lens)
  define j where "j = nat (min (getCursorLineOffset t) (int (length (linesOf ?cs ! target))))"
  have off: "0 \<le> getCursorLineOffset t" using nonneg by (rule getCursorLineOffset_nonneg)
  then have jint: "min (getCursorLineOffset t) (int (length (linesOf ?cs ! target))) = int j"
    by (simp add: j_def)
  have jle: "j \<le> length (linesOf ?cs ! target)" using off by (simp add: j_def)
  have "getVerticalCursor t direction =
      int (getLineStart t target) +
      min (getCursorLineOffset t)
        (int (if target < length (getLineLengths t) then getLineLengths t ! target else 0))"
    by (simp add: getVerticalCursor_def Let_def target_def)
  then have gv0: "getVerticalCursor t direction = int (lineStartOf ?cs target + j)"
    using tl jint by (simp add: lens getLineStart_linesOf)
  define k where "k = lineStartOf ?cs target + j"
  have gv: "getVerticalCursor t direction = int k" using gv0 by (simp only: k_def)
  have pos: "k \<le> length ?cs"
    "length (filter (\<lambda>c. c = newline) (take k ?cs)) = target"
    "length (takeWhile (\<lambda>c. c \<noteq> newline) (rev (take k ?cs))) = j"
    using position_in_line [OF tl jle] by (simp_all only: k_def)
  have c': "cursor t' = int k" and cs': "contents t' = ?cs"
    by (simp_all add: t'_def gv)
  show "getCurrentLine t' = target"
    using pos by (simp add: getCurrentLine_count c' cs')
  have "getCursorLineOffset t' = int j"
    using pos getCursorLineOffset_in_range [of t'] by (simp add: c' cs')
  then show "getCursorLineOffset t' = min (getCursorLineOffset t) (int (getLineLengths t ! target))"
    using jint tl by (simp add: lens)
  show "0 \<le> cursor t'" by (simp add: c')
  show "cursor t' \<le> int (length (contents t))" using pos by (simp add: c')
qed

subsection \<open>Text layer: keys and paste\<close>

lemma checkNoWrites_range:
  "0 \<le> cursor t \<Longrightarrow> cursor t \<le> int (length (contents t)) \<Longrightarrow>
   0 \<le> cursor (checkNoWrites t) \<and> cursor (checkNoWrites t) \<le> int (length (contents (checkNoWrites t)))"
  by (simp add: checkNoWrites_def setStarterChar_def hasTableId_def Let_def)

lemma checkNoWrites_nonempty:
  "contents t \<noteq> [] \<or> hasTableId t \<Longrightarrow>
   contents (checkNoWrites t) = contents t \<and> cursor (checkNoWrites t) = cursor t"
  by (auto simp: checkNoWrites_def setStarterChar_def hasTableId_def Let_def)

lemma checkNoWrites_empty:
  "contents t = [] \<Longrightarrow> \<not> hasTableId t \<Longrightarrow>
   contents (checkNoWrites t) = [starterChar] \<and> cursor (checkNoWrites t) = 1"
  by (simp add: checkNoWrites_def setStarterChar_def hasTableId_def Let_def)

lemma inRange_if:
  "(0 \<le> cursor (if c then a else b) \<and> cursor (if c then a else b) \<le> int (length (contents (if c then a else b))))
   = ((c \<longrightarrow> 0 \<le> cursor a \<and> cursor a \<le> int (length (contents a)))
      \<and> (\<not> c \<longrightarrow> 0 \<le> cursor b \<and> cursor b \<le> int (length (contents b))))"
  by simp

lemma writeChar_range:
  "0 \<le> cursor (writeChar key t) \<and> cursor (writeChar key t) \<le> int (length (contents (writeChar key t)))"
proof -
  define t1 where "t1 = t\<lparr>cursor := max 0 (min (cursor t) (int (length (contents t))))\<rparr>"
  define len where "len = int (length (contents t))"
  have r: "0 \<le> cursor t1" "cursor t1 \<le> int (length (contents t1))" "int (length (contents t1)) = len"
    by (simp_all add: t1_def len_def)
  note v = vertical_cursor(3,4) [OF r(1), of "''down''"] vertical_cursor(3,4) [OF r(1), of "''up''"]
  have b1: "0 \<le> cursor (t1\<lparr>cursor := getVerticalCursor t1 ''down''\<rparr>)
      \<and> cursor (t1\<lparr>cursor := getVerticalCursor t1 ''down''\<rparr>)
          \<le> int (length (contents (t1\<lparr>cursor := getVerticalCursor t1 ''down''\<rparr>)))"
    using v by simp
  have b2: "0 \<le> cursor (t1\<lparr>cursor := getVerticalCursor t1 ''up''\<rparr>)
      \<and> cursor (t1\<lparr>cursor := getVerticalCursor t1 ''up''\<rparr>)
          \<le> int (length (contents (t1\<lparr>cursor := getVerticalCursor t1 ''up''\<rparr>)))"
    using v by simp
  have b3: "0 \<le> cursor (t1\<lparr>cursor := min len (cursor t1 + 1)\<rparr>)
      \<and> cursor (t1\<lparr>cursor := min len (cursor t1 + 1)\<rparr>)
          \<le> int (length (contents (t1\<lparr>cursor := min len (cursor t1 + 1)\<rparr>)))"
    using r by simp
  have b4: "0 \<le> cursor (t1\<lparr>cursor := max 0 (cursor t1 - 1)\<rparr>)
      \<and> cursor (t1\<lparr>cursor := max 0 (cursor t1 - 1)\<rparr>)
          \<le> int (length (contents (t1\<lparr>cursor := max 0 (cursor t1 - 1)\<rparr>)))"
    using r by simp
  have b5: "\<And>chars. length chars = 1 \<Longrightarrow>
      0 \<le> cursor (t1\<lparr>contents := spliceInsert (contents t1) (cursor t1) chars,
                     cursor := cursor t1 + 1\<rparr>)
      \<and> cursor (t1\<lparr>contents := spliceInsert (contents t1) (cursor t1) chars,
                     cursor := cursor t1 + 1\<rparr>)
          \<le> int (length (contents (t1\<lparr>contents := spliceInsert (contents t1) (cursor t1) chars,
                     cursor := cursor t1 + 1\<rparr>)))"
    using r(1,2) by (simp add: spliceInsert_def spliceStart_def)
  have b5': "length [newline] = 1" by simp
  have b6: "0 < cursor t1 \<Longrightarrow>
      0 \<le> cursor (t1\<lparr>contents := spliceDelete (contents t1) (cursor t1 - 1), cursor := cursor t1 - 1\<rparr>)
      \<and> cursor (t1\<lparr>contents := spliceDelete (contents t1) (cursor t1 - 1), cursor := cursor t1 - 1\<rparr>)
          \<le> int (length (contents (t1\<lparr>contents := spliceDelete (contents t1) (cursor t1 - 1),
                 cursor := cursor t1 - 1\<rparr>)))"
    using r(1,2) by (simp add: spliceDelete_def spliceStart_def)
  have b7: "cursor t1 < len \<Longrightarrow>
      0 \<le> cursor (t1\<lparr>contents := spliceDelete (contents t1) (cursor t1)\<rparr>)
      \<and> cursor (t1\<lparr>contents := spliceDelete (contents t1) (cursor t1)\<rparr>)
          \<le> int (length (contents (t1\<lparr>contents := spliceDelete (contents t1) (cursor t1)\<rparr>)))"
    using r by (simp add: spliceDelete_def spliceStart_def)
  have b8: "0 \<le> cursor t1 \<and> cursor t1 \<le> int (length (contents t1))" using r by simp
  have w: "writeChar key t = checkNoWrites
           (if key = ''ArrowDown'' then t1\<lparr>cursor := getVerticalCursor t1 ''down''\<rparr>
            else if key = ''ArrowUp'' then t1\<lparr>cursor := getVerticalCursor t1 ''up''\<rparr>
            else if key = ''ArrowRight'' then t1\<lparr>cursor := min len (cursor t1 + 1)\<rparr>
            else if key = ''ArrowLeft'' then t1\<lparr>cursor := max 0 (cursor t1 - 1)\<rparr>
            else if key = ''Enter''
              then t1\<lparr>contents := spliceInsert (contents t1) (cursor t1) [newline],
                     cursor := cursor t1 + 1\<rparr>
            else if key = ''Backspace''
              then (if cursor t1 > 0
                    then t1\<lparr>contents := spliceDelete (contents t1) (cursor t1 - 1),
                           cursor := cursor t1 - 1\<rparr>
                    else t1)
            else if key = ''Delete''
              then (if cursor t1 < len
                    then t1\<lparr>contents := spliceDelete (contents t1) (cursor t1)\<rparr>
                    else t1)
            else (if length key = 1
                  then t1\<lparr>contents := spliceInsert (contents t1) (cursor t1) key,
                         cursor := cursor t1 + 1\<rparr>
                  else t1))" (is "_ = checkNoWrites ?u")
    unfolding writeChar_def Let_def t1_def len_def ..
  have "0 \<le> cursor ?u \<and> cursor ?u \<le> int (length (contents ?u))"
    using b5 [OF b5'] b5 [of key] b6 b7 by (simp only: inRange_if b1 b2 b3 b4 b8 simp_thms) blast
  then show ?thesis using checkNoWrites_range [of ?u] by (simp only: w)
qed

lemma paste_range:
  "0 \<le> cursor t \<Longrightarrow> cursor t \<le> int (length (contents t)) \<Longrightarrow>
   0 \<le> cursor (paste s t) \<and> cursor (paste s t) \<le> int (length (contents (paste s t)))"
proof -
  assume r: "0 \<le> cursor t" "cursor t \<le> int (length (contents t))"
  let ?u = "t\<lparr>contents := spliceInsert (contents t) (cursor t) (filter (\<lambda>char. char \<noteq> carriageReturn) s),
                    cursor := cursor t + int (length (filter (\<lambda>char. char \<noteq> carriageReturn) s))\<rparr>"
  have "0 \<le> cursor ?u \<and> cursor ?u \<le> int (length (contents ?u))"
    using r by (auto simp: spliceInsert_def spliceStart_def)
  then show ?thesis using checkNoWrites_range [of ?u] r by (simp add: paste_def Let_def)
qed

lemma backspace_at_start:
  "contents t \<noteq> [] \<or> hasTableId t \<Longrightarrow> cursor t = 0 \<Longrightarrow>
   contents (writeChar ''Backspace'' t) = contents t \<and> cursor (writeChar ''Backspace'' t) = cursor t"
  using checkNoWrites_nonempty [of "t\<lparr>cursor := 0\<rparr>"]
  by (simp add: writeChar_def Let_def hasTableId_def)

lemma delete_at_end:
  "contents t \<noteq> [] \<or> hasTableId t \<Longrightarrow> cursor t = int (length (contents t)) \<Longrightarrow>
   contents (writeChar ''Delete'' t) = contents t \<and> cursor (writeChar ''Delete'' t) = cursor t"
  using checkNoWrites_nonempty [of "t\<lparr>cursor := int (length (contents t))\<rparr>"]
  by (simp add: writeChar_def Let_def hasTableId_def)

lemma key_on_empty:
  "contents t = [] \<Longrightarrow> \<not> hasTableId t \<Longrightarrow> key = ''Backspace'' \<or> key = ''Delete'' \<Longrightarrow>
   contents (writeChar key t) = [starterChar] \<and> cursor (writeChar key t) = 1"
  using checkNoWrites_empty [of "t\<lparr>cursor := 0\<rparr>"]
  by (auto simp: writeChar_def Let_def hasTableId_def)

text \<open>
  C9 (as amended). \<open>writeChar\<close> with any key leaves the cursor within
  \<open>[0, contents.length]\<close> of the resulting contents (it clamps the cursor first), and so does
  \<open>paste\<close> with any string when the cursor is within range before. Backspace at cursor 0
  and Delete at the end leave contents and cursor unchanged when the contents are not empty
  or the layer is a table cell's; on an empty layer outside a table \<open>checkNoWrites\<close> fills in
  the placeholder, so the contents become \<open>>\<close> and the cursor 1.
\<close>

theorem text_cursor_stays_in_range:
  fixes t :: "'a textLayer_scheme"
  shows
    "0 \<le> cursor (writeChar key t)
     \<and> cursor (writeChar key t) \<le> int (length (contents (writeChar key t)))
     \<and> (0 \<le> cursor t \<and> cursor t \<le> int (length (contents t)) \<longrightarrow>
          0 \<le> cursor (paste s t) \<and> cursor (paste s t) \<le> int (length (contents (paste s t))))
     \<and> ((contents t \<noteq> [] \<or> hasTableId t) \<and> cursor t = 0 \<longrightarrow>
          contents (writeChar ''Backspace'' t) = contents t
          \<and> cursor (writeChar ''Backspace'' t) = cursor t)
     \<and> ((contents t \<noteq> [] \<or> hasTableId t) \<and> cursor t = int (length (contents t)) \<longrightarrow>
          contents (writeChar ''Delete'' t) = contents t
          \<and> cursor (writeChar ''Delete'' t) = cursor t)
     \<and> (contents t = [] \<and> \<not> hasTableId t \<longrightarrow>
          contents (writeChar ''Backspace'' t) = [starterChar]
          \<and> cursor (writeChar ''Backspace'' t) = 1
          \<and> contents (writeChar ''Delete'' t) = [starterChar]
          \<and> cursor (writeChar ''Delete'' t) = 1)"
  using writeChar_range [of key t] paste_range [of t s] backspace_at_start [of t]
    delete_at_end [of t] key_on_empty [of t "''Backspace''"] key_on_empty [of t "''Delete''"]
  by blast

text \<open>
  The text \<open>ab\<close>: a character typed at the end, a paste at the start, Backspace at the
  start, Delete at the end; and Backspace on the empty layer.
\<close>

theorem text_cursor_stays_in_range_witness:
  "cursor (writeChar ''c'' (sampleText ''ab'' 2)) = 3
   \<and> contents (writeChar ''c'' (sampleText ''ab'' 2)) = ''abc''
   \<and> 0 \<le> cursor (paste ''xy'' (sampleText ''ab'' 0))
   \<and> cursor (paste ''xy'' (sampleText ''ab'' 0))
       \<le> int (length (contents (paste ''xy'' (sampleText ''ab'' 0))))
   \<and> contents (writeChar ''Backspace'' (sampleText ''ab'' 0)) = contents (sampleText ''ab'' 0)
   \<and> cursor (writeChar ''Backspace'' (sampleText ''ab'' 0)) = cursor (sampleText ''ab'' 0)
   \<and> contents (writeChar ''Delete'' (sampleText ''ab'' 2)) = contents (sampleText ''ab'' 2)
   \<and> cursor (writeChar ''Delete'' (sampleText ''ab'' 2)) = cursor (sampleText ''ab'' 2)
   \<and> contents (writeChar ''Backspace'' (sampleText [] 0)) = [starterChar]
   \<and> cursor (writeChar ''Backspace'' (sampleText [] 0)) = 1"
proof -
  have v: "cursor (writeChar ''c'' (sampleText ''ab'' 2)) = 3"
    "contents (writeChar ''c'' (sampleText ''ab'' 2)) = ''abc''"
    by code_simp+
  have h1: "0 \<le> cursor (sampleText ''ab'' 0)
      \<and> cursor (sampleText ''ab'' 0) \<le> int (length (contents (sampleText ''ab'' 0)))"
    by code_simp
  have h2: "(contents (sampleText ''ab'' 0) \<noteq> [] \<or> hasTableId (sampleText ''ab'' 0))
      \<and> cursor (sampleText ''ab'' 0) = 0"
    by code_simp
  have h3: "(contents (sampleText ''ab'' 2) \<noteq> [] \<or> hasTableId (sampleText ''ab'' 2))
      \<and> cursor (sampleText ''ab'' 2) = int (length (contents (sampleText ''ab'' 2)))"
    by code_simp
  have h4: "contents (sampleText [] 0) = [] \<and> \<not> hasTableId (sampleText [] 0)"
    by code_simp
  note A = text_cursor_stays_in_range [of "''c''" "sampleText ''ab'' 0" "''xy''"]
  note B = text_cursor_stays_in_range [of "''c''" "sampleText ''ab'' 2" "''xy''"]
  note C = text_cursor_stays_in_range [of "''c''" "sampleText [] 0" "''xy''"]
  note p = A [THEN conjunct2, THEN conjunct2, THEN conjunct1, THEN mp, OF h1]
  note b = A [THEN conjunct2, THEN conjunct2, THEN conjunct2, THEN conjunct1, THEN mp, OF h2]
  note d = B [THEN conjunct2, THEN conjunct2, THEN conjunct2, THEN conjunct2, THEN conjunct1,
      THEN mp, OF h3]
  note e = C [THEN conjunct2, THEN conjunct2, THEN conjunct2, THEN conjunct2, THEN conjunct2,
      THEN mp, OF h4, THEN conjunct1]
    C [THEN conjunct2, THEN conjunct2, THEN conjunct2, THEN conjunct2, THEN conjunct2,
      THEN mp, OF h4, THEN conjunct2, THEN conjunct1]
  from v p b d e show ?thesis by (elim conjE, intro conjI)
qed

text \<open>
  The claim as stated fails on the empty layer outside a table: the cursor 0 is within
  \<open>[0, contents.length]\<close>, and Backspace (at cursor 0) and Delete (at the end) change the
  contents to the placeholder and the cursor to 1.
\<close>

theorem text_cursor_stays_in_range_counterexample:
  "contents (sampleText [] 0) = [] \<and> cursor (sampleText [] 0) = 0
   \<and> contents (writeChar ''Backspace'' (sampleText [] 0)) = ''>''
   \<and> cursor (writeChar ''Backspace'' (sampleText [] 0)) = 1
   \<and> contents (writeChar ''Delete'' (sampleText [] 0)) = ''>''
   \<and> cursor (writeChar ''Delete'' (sampleText [] 0)) = 1"
  by code_simp

subsection \<open>Text layer: the arrow keys\<close>

lemma paste_inserts:
  assumes "chars \<noteq> []" and "carriageReturn \<notin> set chars"
  shows "contents (paste chars t) = spliceInsert (contents t) (cursor t) chars
    \<and> cursor (paste chars t) = cursor t + int (length chars)"
proof -
  have f: "filter (\<lambda>char. char \<noteq> carriageReturn) chars = chars"
    using assms(2) by (auto simp: filter_id_conv)
  have n: "spliceInsert (contents t) (cursor t) chars \<noteq> []"
    using assms(1) by (simp add: spliceInsert_def)
  show ?thesis
    using assms(1) n by (simp add: paste_def f checkNoWrites_def Let_def)
qed

text \<open>
  C7 (the code departs from the claim). Pressing ArrowUp or ArrowDown does not move the
  cursor to the adjacent line. \<open>keyDownEvent\<close> hands the key to \<open>draw\<close>, and \<open>draw\<close> sends a
  string of length 1 to \<open>writeChar\<close> and any other string to \<open>paste\<close>: for every content
  and every cursor position, the name of the key is inserted into the contents at the
  cursor, and the cursor moves on by the length of the name. The branches of \<open>writeChar\<close>
  for these keys, which call \<open>getVerticalCursor\<close>, are not reached.
\<close>

theorem arrow_keys_are_pasted:
  fixes t :: "'a textLayer_scheme"
  assumes "key = ''ArrowUp'' \<or> key = ''ArrowDown''"
  shows "draw key t = paste key t
    \<and> contents (draw key t) = spliceInsert (contents t) (cursor t) key
    \<and> cursor (draw key t) = cursor t + int (length key)"
proof -
  from assms have l: "length key \<noteq> 1" and n: "key \<noteq> []"
    and c: "carriageReturn \<notin> set key"
    by (auto simp: carriageReturn_def)
  have d: "draw key t = paste key t"
    using l by (simp add: draw_def)
  from paste_inserts [OF n c, of t] d show ?thesis by simp
qed

text \<open>
  The text \<open>ab / cd\<close> with the cursor after \<open>c\<close> (index 4: second line, offset 1). ArrowUp
  should take the cursor to index 1 and leave the text alone; the text becomes
  \<open>ab / cArrowUpd\<close> and the cursor 11.
\<close>

theorem arrow_keys_are_pasted_witness:
  "(''ArrowUp'' = ''ArrowUp'' \<or> ''ArrowUp'' = ''ArrowDown'')
   \<and> contents (draw ''ArrowUp'' (sampleText (''ab'' @ [newline] @ ''cd'') 4))
       = ''ab'' @ [newline] @ ''cArrowUpd''
   \<and> cursor (draw ''ArrowUp'' (sampleText (''ab'' @ [newline] @ ''cd'') 4)) = 11
   \<and> getVerticalCursor (sampleText (''ab'' @ [newline] @ ''cd'') 4) ''up'' = 1"
proof -
  have h: "''ArrowUp'' = ''ArrowUp'' \<or> ''ArrowUp'' = ''ArrowDown''" by simp
  note T = arrow_keys_are_pasted [OF h, of "sampleText (''ab'' @ [newline] @ ''cd'') 4"]
  have c: "spliceInsert (contents (sampleText (''ab'' @ [newline] @ ''cd'') 4))
        (cursor (sampleText (''ab'' @ [newline] @ ''cd'') 4)) ''ArrowUp''
      = ''ab'' @ [newline] @ ''cArrowUpd''"
    by code_simp
  have k: "cursor (sampleText (''ab'' @ [newline] @ ''cd'') 4) + int (length ''ArrowUp'') = 11"
    by code_simp
  have v: "getVerticalCursor (sampleText (''ab'' @ [newline] @ ''cd'') 4) ''up'' = 1"
    by code_simp
  from h T [THEN conjunct2, THEN conjunct1, unfolded c]
    T [THEN conjunct2, THEN conjunct2, unfolded k] v
  show ?thesis by (intro conjI)
qed

subsection \<open>Z-order\<close>

text \<open>
  C8 (the code departs from the claim). The z-ordered view holds the layers of the
  collection sorted by their integer \<open>zindex\<close>, and layers with equal \<open>zindex\<close> appear in the
  order of the \<open>layers\<close> array. But \<open>add\<close> puts a layer at the front of that array
  (\<open>unshift\<close>), so among the layers with its \<open>zindex\<close> the layer added last comes first in
  the view, and is rendered first: not the layer inserted earlier, and not "rendered last /
  on top", as the comment on \<open>add\<close> has it.
\<close>

theorem zorder_ties_in_array_order:
  "sorted (map zindex (getLayersOrderedByZindex m))
   \<and> set (getLayersOrderedByZindex m) = set (layers m)
   \<and> length (getLayersOrderedByZindex m) = length (layers m)
   \<and> filter (\<lambda>l. zindex l = z) (getLayersOrderedByZindex m) = filter (\<lambda>l. zindex l = z) (layers m)
   \<and> layers (add (Some l) m) = l # layers m
   \<and> filter (\<lambda>x. zindex x = zindex l) (getLayersOrderedByZindex (add (Some l) m))
       = l # filter (\<lambda>x. zindex x = zindex l) (layers m)"
proof -
  have 1: "sorted (map zindex (getLayersOrderedByZindex m))"
    by (simp add: getLayersOrderedByZindex_def)
  have 2: "set (getLayersOrderedByZindex m) = set (layers m)"
    "length (getLayersOrderedByZindex m) = length (layers m)"
    by (simp_all add: getLayersOrderedByZindex_def)
  have 3: "filter (\<lambda>l. zindex l = z) (getLayersOrderedByZindex m) = filter (\<lambda>l. zindex l = z) (layers m)"
    by (simp add: getLayersOrderedByZindex_def sort_key_stable)
  have 4: "layers (add (Some l) m) = l # layers m" by (simp add: add_def)
  have 5: "filter (\<lambda>x. zindex x = zindex l) (getLayersOrderedByZindex (add (Some l) m))
       = l # filter (\<lambda>x. zindex x = zindex l) (layers m)"
    unfolding getLayersOrderedByZindex_def 4 sort_key_stable by simp
  from 1 2 3 4 5 show ?thesis by (intro conjI)
qed

text \<open>
  \<open>A\<close> is added first and \<open>B\<close> second, both with z-index 1: the layers of z-index 1 in the
  z-ordered view are \<open>B, A\<close>, and so is the whole view. The layer inserted later comes
  first.
\<close>

theorem zorder_ties_in_array_order_witness:
  "zindex (sampleLayer Square ''A'' \<lparr>row = 0, col = 0\<rparr> [] 1) = zindex (sampleLayer Circle ''B'' \<lparr>row = 5, col = 5\<rparr> [] 1)
   \<and> filter (\<lambda>x. zindex x = zindex (sampleLayer Circle ''B'' \<lparr>row = 5, col = 5\<rparr> [] 1))
        (getLayersOrderedByZindex
          (add (Some (sampleLayer Circle ''B'' \<lparr>row = 5, col = 5\<rparr> [] 1))
          (add (Some (sampleLayer Square ''A'' \<lparr>row = 0, col = 0\<rparr> [] 1)) LayerManager_new)))
       = [(sampleLayer Circle ''B'' \<lparr>row = 5, col = 5\<rparr> [] 1), (sampleLayer Square ''A'' \<lparr>row = 0, col = 0\<rparr> [] 1)]
   \<and> map lid (getLayersOrderedByZindex
          (add (Some (sampleLayer Circle ''B'' \<lparr>row = 5, col = 5\<rparr> [] 1))
          (add (Some (sampleLayer Square ''A'' \<lparr>row = 0, col = 0\<rparr> [] 1)) LayerManager_new)))
       = [''B'', ''A'']"
proof -
  note T = zorder_ties_in_array_order
    [of "add (Some (sampleLayer Square ''A'' \<lparr>row = 0, col = 0\<rparr> [] 1)) LayerManager_new" 1
      "sampleLayer Circle ''B'' \<lparr>row = 5, col = 5\<rparr> [] 1",
      THEN conjunct2, THEN conjunct2, THEN conjunct2, THEN conjunct2, THEN conjunct2]
  have r: "(sampleLayer Circle ''B'' \<lparr>row = 5, col = 5\<rparr> [] 1) # filter (\<lambda>x. zindex x = zindex (sampleLayer Circle ''B'' \<lparr>row = 5, col = 5\<rparr> [] 1))
        (layers (add (Some (sampleLayer Square ''A'' \<lparr>row = 0, col = 0\<rparr> [] 1)) LayerManager_new))
       = [(sampleLayer Circle ''B'' \<lparr>row = 5, col = 5\<rparr> [] 1), (sampleLayer Square ''A'' \<lparr>row = 0, col = 0\<rparr> [] 1)]"
    by code_simp
  have z: "zindex (sampleLayer Square ''A'' \<lparr>row = 0, col = 0\<rparr> [] 1) = zindex (sampleLayer Circle ''B'' \<lparr>row = 5, col = 5\<rparr> [] 1)"
    by code_simp
  have v: "map lid (getLayersOrderedByZindex
          (add (Some (sampleLayer Circle ''B'' \<lparr>row = 5, col = 5\<rparr> [] 1))
          (add (Some (sampleLayer Square ''A'' \<lparr>row = 0, col = 0\<rparr> [] 1)) LayerManager_new)))
       = [''B'', ''A'']"
    by code_simp
  from z T [unfolded r] v show ?thesis by (intro conjI)
qed

subsection \<open>Layer: commit and rollback\<close>

lemma observable_rollback: "observable (rollback l) = saved (stashed l)"
  by (simp add: observable_def rollback_def releaseCommit_def fields.truncate_def)

lemma stashed_rollback: "stashed (rollback l) = stashed l"
  by (simp add: rollback_def releaseCommit_def)

lemma commitLock_rollback: "\<not> commitLock (rollback l)"
  by (simp add: rollback_def releaseCommit_def)

lemma stashed_stash: "stashed (stash l) = Snapshot (observable l)"
  by (simp add: observable_def stash_def fields.truncate_def)

lemma stashed_commitEnter:
  "stashed (commitEnter keyed l) = (if commitLock l then stashed l else Snapshot (observable l))"
  by (simp add: commitEnter_def beginCommit_def Let_def stashed_stash)

lemma commitLock_commitEnter: "commitLock (commitEnter keyed l)"
  by (simp add: commitEnter_def beginCommit_def Let_def)

lemma commit_fails:
  assumes "runFuncs fs (commitEnter keyed l) = Threw m
           \<or> (runFuncs fs (commitEnter keyed l) = Returned m \<and> \<not> isHappy keyed m)"
  shows "commit keyed fs l = (False, rollback m)"
  using assms by (auto simp: commit_def)

text \<open>
  C1 (as amended). For a layer with the base \<open>stash\<close> and \<open>rollback\<close> and mutators that
  leave the stash itself alone: when a mutator throws, or the mutators return and
  \<open>isHappy()\<close> is false, \<open>commit\<close> returns false, releases the lock, and every field that
  \<open>stash\<close> saves (anchors, pixels, values, joints, zindex, lineForm, selection flag,
  tableId) has the value of the last stash. That is its value at the start of this
  commit when the commit lock was clear on entry; when the lock was still set (a commit
  that succeeded keeps it set until \<open>render()\<close> or a rollback) it is the value saved by
  the commit that set the lock.
\<close>

theorem commit_failure_restores_stash:
  assumes "runFuncs fs (commitEnter keyed l) = Threw m
           \<or> (runFuncs fs (commitEnter keyed l) = Returned m \<and> \<not> isHappy keyed m)"
    and "stashed m = stashed (commitEnter keyed l)"
  shows "fst (commit keyed fs l) = False
         \<and> observable (snd (commit keyed fs l))
             = (if commitLock l then saved (stashed l) else observable l)
         \<and> \<not> commitLock (snd (commit keyed fs l))"
  using commit_fails [OF assms(1)] assms(2)
  by (simp add: observable_rollback commitLock_rollback stashed_commitEnter)

text \<open>
  Layer \<open>A\<close>, lock clear: the first mutator sets the z-index to 9, the second is a nested
  commit that changes the line form, the third selects the layer and throws. The commit
  fails and every field is as before.
\<close>

theorem commit_failure_restores_stash_witness:
  "runFuncs
     [\<lambda>x. Returned (x\<lparr>zindex := 9\<rparr>),
      \<lambda>x. Returned (snd (commit baseKeyed [\<lambda>y. Returned (y\<lparr>lineForm := ''dotted''\<rparr>)] x)),
      \<lambda>x. Threw (x\<lparr>isSelected := True\<rparr>)]
     (commitEnter baseKeyed layerA)
    = Threw ((commitEnter baseKeyed layerA)
              \<lparr>zindex := 9, lineForm := ''dotted'', isSelected := True\<rparr>)
   \<and> stashed ((commitEnter baseKeyed layerA)
              \<lparr>zindex := 9, lineForm := ''dotted'', isSelected := True\<rparr>)
       = stashed (commitEnter baseKeyed layerA)
   \<and> fst (commit baseKeyed
        [\<lambda>x. Returned (x\<lparr>zindex := 9\<rparr>),
         \<lambda>x. Returned (snd (commit baseKeyed [\<lambda>y. Returned (y\<lparr>lineForm := ''dotted''\<rparr>)] x)),
         \<lambda>x. Threw (x\<lparr>isSelected := True\<rparr>)] layerA) = False
   \<and> observable (snd (commit baseKeyed
        [\<lambda>x. Returned (x\<lparr>zindex := 9\<rparr>),
         \<lambda>x. Returned (snd (commit baseKeyed [\<lambda>y. Returned (y\<lparr>lineForm := ''dotted''\<rparr>)] x)),
         \<lambda>x. Threw (x\<lparr>isSelected := True\<rparr>)] layerA)) = observable layerA"
proof -
  have h1: "runFuncs
     [\<lambda>x. Returned (x\<lparr>zindex := 9\<rparr>),
      \<lambda>x. Returned (snd (commit baseKeyed [\<lambda>y. Returned (y\<lparr>lineForm := ''dotted''\<rparr>)] x)),
      \<lambda>x. Threw (x\<lparr>isSelected := True\<rparr>)]
     (commitEnter baseKeyed layerA)
    = Threw ((commitEnter baseKeyed layerA)
              \<lparr>zindex := 9, lineForm := ''dotted'', isSelected := True\<rparr>)"
    by code_simp
  have h2: "stashed ((commitEnter baseKeyed layerA)
              \<lparr>zindex := 9, lineForm := ''dotted'', isSelected := True\<rparr>)
       = stashed (commitEnter baseKeyed layerA)"
    by simp
  have nl: "commitLock layerA = False" by code_simp
  note T = commit_failure_restores_stash [OF disjI1 [OF h1] h2]
  from T [THEN conjunct2, THEN conjunct1] have ob: "observable (snd (commit baseKeyed
        [\<lambda>x. Returned (x\<lparr>zindex := 9\<rparr>),
         \<lambda>x. Returned (snd (commit baseKeyed [\<lambda>y. Returned (y\<lparr>lineForm := ''dotted''\<rparr>)] x)),
         \<lambda>x. Threw (x\<lparr>isSelected := True\<rparr>)] layerA)) = observable layerA"
    by (simp only: nl if_False)
  from h1 h2 T [THEN conjunct1] ob show ?thesis by (intro conjI)
qed

text \<open>
  The claim as stated fails: a first commit on layer \<open>A\<close> sets the z-index to 5 and
  succeeds, so the lock stays set; a second commit, entered before any \<open>render()\<close>, throws.
  It returns false, and the z-index is not 5, its value at the start of that commit, but
  1, the value saved by the first commit.
\<close>

theorem commit_failure_restores_stash_counterexample:
  "fst (commit baseKeyed [\<lambda>x. Returned (x\<lparr>zindex := 5\<rparr>)] layerA) = True
   \<and> zindex (snd (commit baseKeyed [\<lambda>x. Returned (x\<lparr>zindex := 5\<rparr>)] layerA)) = 5
   \<and> fst (commit baseKeyed [\<lambda>x. Threw x]
             (snd (commit baseKeyed [\<lambda>x. Returned (x\<lparr>zindex := 5\<rparr>)] layerA))) = False
   \<and> zindex (snd (commit baseKeyed [\<lambda>x. Threw x]
             (snd (commit baseKeyed [\<lambda>x. Returned (x\<lparr>zindex := 5\<rparr>)] layerA)))) = 1"
  by code_simp

subsection \<open>Layer: move\<close>

lemma validPixel_filter: "list_all validPixel (filter (\<lambda>p. p \<noteq> None) ps)"
  by (simp add: list_all_iff validPixel_def)

lemma isHappy_move:
  "fromPixel l \<noteq> None \<Longrightarrow> isHappy keyed (move cv dr dc l)"
  by (auto simp: isHappy_def move_def Let_def validPixel_def list_all_iff getJointPixels_def
      split: option.splits)

lemma fromPixel_commitEnter: "fromPixel (commitEnter keyed l) = fromPixel l"
  by (simp add: commitEnter_def beginCommit_def stash_def Let_def)

lemma pixels_commitEnter: "pixels (commitEnter keyed l) = pixels l"
  by (simp add: commitEnter_def beginCommit_def stash_def Let_def)

lemma values_commitEnter: "values' (commitEnter keyed l) = values' l"
  by (simp add: commitEnter_def beginCommit_def stash_def Let_def)

lemma pixels_move:
  "pixels (move cv dr dc l) =
     filter (\<lambda>p. p \<noteq> None)
       (map (\<lambda>p. case p of None \<Rightarrow> None
                 | Some q \<Rightarrow> getPixelByRowCol cv (row q + dr) (col q + dc)) (pixels l))"
  by (simp add: move_def Let_def split: option.splits)

lemma values_move: "values' (move cv dr dc l) = values' l"
  by (simp add: move_def Let_def split: option.splits)

text \<open>
  C4 (the code departs from the claim). \<open>Layer.move\<close> translates the anchors and the cells
  without rasterizing again, but it drops the cells that leave the canvas and keeps an
  anchor that would leave it. So whenever the layer has its from-anchor, a commit that
  wraps \<open>move\<close> succeeds, whatever the translation: a move out of the grid is not rolled
  back, the layer loses the cells that left, and \<open>values\<close> keeps its length.
\<close>

theorem move_commit_succeeds:
  assumes "fromPixel l \<noteq> None"
  shows "commit keyed [\<lambda>x. Returned (move cv dr dc x)] l
           = (True, move cv dr dc (commitEnter keyed l))
         \<and> pixels (move cv dr dc (commitEnter keyed l)) =
             filter (\<lambda>p. p \<noteq> None)
               (map (\<lambda>p. case p of None \<Rightarrow> None
                         | Some q \<Rightarrow> getPixelByRowCol cv (row q + dr) (col q + dc)) (pixels l))
         \<and> values' (move cv dr dc (commitEnter keyed l)) = values' l"
  using isHappy_move [of "commitEnter keyed l" keyed cv dr dc] assms
  by (simp add: commit_def fromPixel_commitEnter pixels_move values_move pixels_commitEnter
      values_commitEnter)

text \<open>Layer \<open>A\<close> on the 65 by 225 canvas, moved one row up from row 0: the commit succeeds,
  the cell is gone, its value and the anchor stay.\<close>

theorem move_commit_succeeds_witness:
  "fromPixel layerA \<noteq> None
   \<and> commit baseKeyed [\<lambda>x. Returned (move defaultCanvas (- 1) 0 x)] layerA
       = (True, move defaultCanvas (- 1) 0 (commitEnter baseKeyed layerA))
   \<and> pixels layerA = [Some \<lparr>row = 0, col = 0\<rparr>]
   \<and> pixels (move defaultCanvas (- 1) 0 (commitEnter baseKeyed layerA)) = []
   \<and> values' (move defaultCanvas (- 1) 0 (commitEnter baseKeyed layerA)) = [''x'']
   \<and> fromPixel (move defaultCanvas (- 1) 0 (commitEnter baseKeyed layerA))
       = Some \<lparr>row = 0, col = 0\<rparr>"
proof -
  have h: "fromPixel layerA \<noteq> None" by code_simp
  have v: "pixels layerA = [Some \<lparr>row = 0, col = 0\<rparr>]"
    "pixels (move defaultCanvas (- 1) 0 (commitEnter baseKeyed layerA)) = []"
    "values' (move defaultCanvas (- 1) 0 (commitEnter baseKeyed layerA)) = [''x'']"
    "fromPixel (move defaultCanvas (- 1) 0 (commitEnter baseKeyed layerA))
       = Some \<lparr>row = 0, col = 0\<rparr>"
    by code_simp+
  note T = move_commit_succeeds [OF h, of baseKeyed defaultCanvas "- 1" 0]
  from h T [THEN conjunct1] v show ?thesis by (intro conjI)
qed

subsection \<open>LayerManager: atomic commits\<close>

lemma rollbackAll_effect:
  assumes "\<forall>a \<in> set cs. rollbackOf (classOf a) = rollback"
  shows "stashed (rollbackAll classOf cs s b) = stashed (s b)
   \<and> observable (rollbackAll classOf cs s b)
       = (if b \<in> set cs then saved (stashed (s b)) else observable (s b))"
  using assms
proof (induction cs arbitrary: s)
  case Nil
  then show ?case by (simp add: rollbackAll_def)
next
  case (Cons a cs)
  define s1 where "s1 = s(a := rollback (s a))"
  from Cons.prems have ra: "rollbackOf (classOf a) = rollback"
    and rest: "\<forall>a \<in> set cs. rollbackOf (classOf a) = rollback"
    by simp_all
  have step: "rollbackAll classOf (a # cs) s = rollbackAll classOf cs s1"
    by (simp add: rollbackAll_def s1_def ra)
  have st: "stashed (s1 b) = stashed (s b)"
    by (simp add: s1_def stashed_rollback)
  have ob: "observable (s1 b) = (if b = a then saved (stashed (s a)) else observable (s b))"
    by (simp add: s1_def observable_rollback)
  from Cons.IH [OF rest, of s1] st ob show ?case
    unfolding step by auto
qed

lemma runFuncs_single: "runFuncs [f] l = (case f l of Returned l' \<Rightarrow> Returned l' | Threw l' \<Rightarrow> Threw l')"
  by (simp split: outcome.splits)

lemma stateOf_runFuncs_single: "stateOf (runFuncs [f] l) = stateOf (f l)"
  by (cases "f l") simp_all

lemma commit_single:
  assumes "keepsTransaction f"
  shows "stashed (snd (commit keyed [f] l))
           = (if commitLock l then stashed l else Snapshot (observable l))"
    and "fst (commit keyed [f] l) \<Longrightarrow> commitLock (snd (commit keyed [f] l))"
    and "\<not> fst (commit keyed [f] l) \<Longrightarrow>
           observable (snd (commit keyed [f] l))
             = (if commitLock l then saved (stashed l) else observable l)"
proof -
  let ?e = "commitEnter keyed l"
  from assms have k: "stashed (stateOf (f ?e)) = stashed ?e" "commitLock (stateOf (f ?e))"
    by (simp_all add: keepsTransaction_def commitLock_commitEnter)
  show "stashed (snd (commit keyed [f] l))
           = (if commitLock l then stashed l else Snapshot (observable l))"
    using k by (cases "f ?e") (simp_all add: commit_def stashed_rollback stashed_commitEnter)
  show "fst (commit keyed [f] l) \<Longrightarrow> commitLock (snd (commit keyed [f] l))"
    using k by (cases "f ?e") (simp_all add: commit_def split: if_splits)
  show "\<not> fst (commit keyed [f] l) \<Longrightarrow>
           observable (snd (commit keyed [f] l))
             = (if commitLock l then saved (stashed l) else observable l)"
    using k by (cases "f ?e")
      (simp_all add: commit_def observable_rollback stashed_commitEnter split: if_splits)
qed

lemma atomicCommit_loop_invalid:
  "layer = None \<or> func = None \<Longrightarrow>
   atomicCommit_loop classOf ((layer, func) # jobs) committed s
     = (False, rollbackAll classOf committed s)"
  by (cases layer; cases func) simp_all

lemma atomicCommit_loop_step:
  "atomicCommit_loop classOf ((Some a, Some f) # jobs) committed s =
     (if fst (commitOf (classOf a) [f] (s a))
      then atomicCommit_loop classOf jobs (committed @ [a])
             (s(a := snd (commitOf (classOf a) [f] (s a))))
      else (False, rollbackAll classOf committed (s(a := snd (commitOf (classOf a) [f] (s a))))))"
  by (simp add: case_prod_unfold Let_def)

text \<open>The call answers true exactly when every commit, in its turn, succeeds, and then
  the store is the one the commits left.\<close>

lemma atomicCommit_loop_result:
  "fst (atomicCommit_loop classOf jobs committed s) = fst (spec_commitsInTurn classOf jobs s)
   \<and> (fst (spec_commitsInTurn classOf jobs s) \<longrightarrow>
        snd (atomicCommit_loop classOf jobs committed s) = snd (spec_commitsInTurn classOf jobs s))"
proof (induction jobs arbitrary: committed s)
  case Nil
  show ?case by simp
next
  case (Cons job jobs)
  obtain layer func where job: "job = (layer, func)" by (cases job)
  show ?case
  proof (cases "layer = None \<or> func = None")
    case True
    then have res: "atomicCommit_loop classOf (job # jobs) committed s
        = (False, rollbackAll classOf committed s)"
      unfolding job by (rule atomicCommit_loop_invalid)
    from True have "\<not> fst (spec_commitsInTurn classOf (job # jobs) s)"
      unfolding job by (auto split: option.splits)
    then show ?thesis unfolding res by simp
  next
    case False
    then obtain a f where af: "layer = Some a" "func = Some f" by auto
    show ?thesis
    proof (cases "fst (commitOf (classOf a) [f] (s a))")
      case True
      have sp: "spec_commitsInTurn classOf ((Some a, Some f) # jobs) s
          = spec_commitsInTurn classOf jobs (s(a := snd (commitOf (classOf a) [f] (s a))))"
        using True by simp
      have lp: "atomicCommit_loop classOf ((Some a, Some f) # jobs) committed s
          = atomicCommit_loop classOf jobs (committed @ [a])
              (s(a := snd (commitOf (classOf a) [f] (s a))))"
        unfolding atomicCommit_loop_step using True by simp
      show ?thesis
        unfolding job af sp lp by (rule Cons.IH)
    next
      case False
      have sp: "spec_commitsInTurn classOf ((Some a, Some f) # jobs) s
          = (False, s(a := snd (commitOf (classOf a) [f] (s a))))"
        using False by simp
      have lp: "atomicCommit_loop classOf ((Some a, Some f) # jobs) committed s
          = (False, rollbackAll classOf committed (s(a := snd (commitOf (classOf a) [f] (s a)))))"
        unfolding atomicCommit_loop_step using False by simp
      show ?thesis
        unfolding job af sp lp by simp
    qed
  qed
qed

text \<open>The loop invariant: a committed layer is locked and its stash is its state in the
  store \<open>s0\<close> the batch started from; any other layer is as it was in \<open>s0\<close>.\<close>

lemma atomicCommit_loop_rollback:
  assumes "\<forall>j \<in> set jobs. \<forall>a f. j = (Some a, Some f) \<longrightarrow>
             classOf a = Layer_class (keyedOf a) \<and> \<not> commitLock (s0 a) \<and> keepsTransaction f"
    and "\<forall>a. (a \<in> set committed \<longrightarrow> rollbackOf (classOf a) = rollback \<and> commitLock (s a)
                  \<and> stashed (s a) = Snapshot (observable (s0 a)))
             \<and> (a \<notin> set committed \<longrightarrow> s a = s0 a)"
    and "\<not> fst (atomicCommit_loop classOf jobs committed s)"
  shows "observable (snd (atomicCommit_loop classOf jobs committed s) b) = observable (s0 b)"
  using assms
proof (induction jobs arbitrary: committed s)
  case Nil
  then show ?case by simp
next
  case (Cons job jobs)
  obtain layer func where job: "job = (layer, func)" by (cases job)
  from Cons.prems(2) have rb: "\<forall>a \<in> set committed. rollbackOf (classOf a) = rollback"
    by simp
  show ?case
  proof (cases "layer = None \<or> func = None")
    case True
    then have res: "atomicCommit_loop classOf (job # jobs) committed s
        = (False, rollbackAll classOf committed s)"
      unfolding job by (rule atomicCommit_loop_invalid)
    show ?thesis
      unfolding res using rollbackAll_effect [OF rb, of s b] Cons.prems(2) by auto
  next
    case False
    then obtain a f where af: "layer = Some a" "func = Some f" by auto
    from Cons.prems(1) have ca: "classOf a = Layer_class (keyedOf a)"
      and ua: "\<not> commitLock (s0 a)" and kf: "keepsTransaction f"
      by (auto simp: job af)
    have cm: "commitOf (classOf a) = commit (keyedOf a)"
      and ra: "rollbackOf (classOf a) = rollback"
      by (simp_all add: ca Layer_class_def)
    define c where "c = fst (commit (keyedOf a) [f] (s a))"
    define l' where "l' = snd (commit (keyedOf a) [f] (s a))"
    note cs = commit_single [OF kf, of "keyedOf a" "s a"]
    have st: "stashed l' = Snapshot (observable (s0 a))"
      using cs(1) Cons.prems(2) ua unfolding l'_def by (cases "a \<in> set committed") auto
    have step: "atomicCommit_loop classOf (job # jobs) committed s =
       (if c then atomicCommit_loop classOf jobs (committed @ [a]) (s(a := l'))
        else (False, rollbackAll classOf committed (s(a := l'))))"
      unfolding job af atomicCommit_loop_step cm c_def l'_def ..
    show ?thesis
    proof (cases c)
      case True
      have lock: "commitLock l'" using cs(2) True unfolding c_def l'_def by simp
      have inv: "\<forall>x. (x \<in> set (committed @ [a]) \<longrightarrow> rollbackOf (classOf x) = rollback
                   \<and> commitLock ((s(a := l')) x)
                   \<and> stashed ((s(a := l')) x) = Snapshot (observable (s0 x)))
             \<and> (x \<notin> set (committed @ [a]) \<longrightarrow> (s(a := l')) x = s0 x)"
        using Cons.prems(2) st lock ra by auto
      have rest: "\<forall>j \<in> set jobs. \<forall>a f. j = (Some a, Some f) \<longrightarrow>
             classOf a = Layer_class (keyedOf a) \<and> \<not> commitLock (s0 a) \<and> keepsTransaction f"
        using Cons.prems(1) by auto
      have eq: "atomicCommit_loop classOf (job # jobs) committed s
          = atomicCommit_loop classOf jobs (committed @ [a]) (s(a := l'))"
        unfolding step using True by simp
      have nf: "\<not> fst (atomicCommit_loop classOf jobs (committed @ [a]) (s(a := l')))"
        using Cons.prems(3) unfolding eq .
      show ?thesis
        unfolding eq by (rule Cons.IH [OF rest inv nf])
    next
      case False
      have ob: "observable l' = observable (s0 a)"
        using cs(3) False Cons.prems(2) ua unfolding c_def l'_def
        by (cases "a \<in> set committed") auto
      have res: "atomicCommit_loop classOf (job # jobs) committed s
          = (False, rollbackAll classOf committed (s(a := l')))"
        unfolding step using False by simp
      show ?thesis
        unfolding res using rollbackAll_effect [OF rb, of "s(a := l')" b] Cons.prems(2) st ob
        by auto
    qed
  qed
qed

lemma keepsTransaction_move: "keepsTransaction (\<lambda>l. Returned (move cv dr dc l))"
  by (simp add: keepsTransaction_def move_def Let_def split: option.splits)

text \<open>
  C2 (as amended). For a batch of jobs whose layers are of classes that inherit \<open>stash\<close>,
  \<open>rollback\<close> and \<open>isHappy\<close> from \<open>Layer\<close>, are not inside a commit when the batch starts
  (commit lock clear), and whose mutators leave the stash and the lock alone: if every
  job's commit succeeds, \<open>atomicCommit\<close> returns true and the store holds what the commits
  left; if a job's commit fails (or a job is not well formed), \<open>atomicCommit\<close> returns
  false and every layer of the store, those committed earlier in the batch and the one
  that failed included, has the fields it had before the batch.
\<close>

theorem atomicCommit_all_or_nothing:
  assumes "\<forall>j \<in> set jobs. \<forall>a f. j = (Some a, Some f) \<longrightarrow>
             classOf a = Layer_class (keyedOf a) \<and> \<not> commitLock (s a) \<and> keepsTransaction f"
  shows "(fst (spec_commitsInTurn classOf jobs s) \<longrightarrow>
            atomicCommit classOf jobs s = (True, snd (spec_commitsInTurn classOf jobs s)))
         \<and> (\<not> fst (spec_commitsInTurn classOf jobs s) \<longrightarrow>
              \<not> fst (atomicCommit classOf jobs s)
              \<and> (\<forall>b. observable (snd (atomicCommit classOf jobs s) b) = observable (s b)))"
proof (intro conjI impI allI)
  assume "fst (spec_commitsInTurn classOf jobs s)"
  then show "atomicCommit classOf jobs s = (True, snd (spec_commitsInTurn classOf jobs s))"
    unfolding atomicCommit_def using atomicCommit_loop_result [of classOf jobs "[]" s]
    by (simp add: prod_eq_iff)
next
  assume "\<not> fst (spec_commitsInTurn classOf jobs s)"
  then show "\<not> fst (atomicCommit classOf jobs s)"
    unfolding atomicCommit_def using atomicCommit_loop_result [of classOf jobs "[]" s] by simp
next
  fix b
  assume "\<not> fst (spec_commitsInTurn classOf jobs s)"
  then have nf: "\<not> fst (atomicCommit_loop classOf jobs [] s)"
    using atomicCommit_loop_result [of classOf jobs "[]" s] by simp
  have inv: "\<forall>a. (a \<in> set [] \<longrightarrow> rollbackOf (classOf a) = rollback \<and> commitLock (s a)
                  \<and> stashed (s a) = Snapshot (observable (s a)))
             \<and> (a \<notin> set [] \<longrightarrow> s a = s a)"
    by simp
  show "observable (snd (atomicCommit classOf jobs s) b) = observable (s b)"
    unfolding atomicCommit_def by (rule atomicCommit_loop_rollback [OF assms inv nf])
qed

text \<open>
  A store with layer \<open>A\<close> at reference 0 and layer \<open>B\<close> elsewhere, both of a class that
  inherits from \<open>Layer\<close>. In the first batch the job of \<open>A\<close> sets its z-index and commits,
  and the job of \<open>B\<close> throws: the call returns false and both layers are as before. In
  the second batch both jobs commit: the call returns true and both z-indexes are set.
\<close>

theorem atomicCommit_all_or_nothing_witness:
  "\<not> commitLock (((\<lambda>n::nat. layerB)(0 := layerA)) 0) \<and> \<not> commitLock (((\<lambda>n::nat. layerB)(0 := layerA)) 1)
   \<and> keepsTransaction (\<lambda>l::layer. Returned (l\<lparr>zindex := 9\<rparr>))
   \<and> keepsTransaction (\<lambda>l::layer. Threw (l\<lparr>zindex := 7\<rparr>))
   \<and> keepsTransaction (\<lambda>l::layer. Returned (l\<lparr>zindex := 7\<rparr>))
   \<and> \<not> fst (spec_commitsInTurn (\<lambda>n::nat. Layer_class baseKeyed)
        [(Some 0, Some (\<lambda>l. Returned (l\<lparr>zindex := 9\<rparr>))),
         (Some 1, Some (\<lambda>l. Threw (l\<lparr>zindex := 7\<rparr>)))] ((\<lambda>n::nat. layerB)(0 := layerA)))
   \<and> \<not> fst (atomicCommit (\<lambda>n::nat. Layer_class baseKeyed)
        [(Some 0, Some (\<lambda>l. Returned (l\<lparr>zindex := 9\<rparr>))),
         (Some 1, Some (\<lambda>l. Threw (l\<lparr>zindex := 7\<rparr>)))] ((\<lambda>n::nat. layerB)(0 := layerA)))
   \<and> observable (snd (atomicCommit (\<lambda>n::nat. Layer_class baseKeyed)
        [(Some 0, Some (\<lambda>l. Returned (l\<lparr>zindex := 9\<rparr>))),
         (Some 1, Some (\<lambda>l. Threw (l\<lparr>zindex := 7\<rparr>)))] ((\<lambda>n::nat. layerB)(0 := layerA))) 0)
       = observable (((\<lambda>n::nat. layerB)(0 := layerA)) 0)
   \<and> observable (snd (atomicCommit (\<lambda>n::nat. Layer_class baseKeyed)
        [(Some 0, Some (\<lambda>l. Returned (l\<lparr>zindex := 9\<rparr>))),
         (Some 1, Some (\<lambda>l. Threw (l\<lparr>zindex := 7\<rparr>)))] ((\<lambda>n::nat. layerB)(0 := layerA))) 1)
       = observable (((\<lambda>n::nat. layerB)(0 := layerA)) 1)
   \<and> fst (spec_commitsInTurn (\<lambda>n::nat. Layer_class baseKeyed)
        [(Some 0, Some (\<lambda>l. Returned (l\<lparr>zindex := 9\<rparr>))),
         (Some 1, Some (\<lambda>l. Returned (l\<lparr>zindex := 7\<rparr>)))] ((\<lambda>n::nat. layerB)(0 := layerA)))
   \<and> fst (atomicCommit (\<lambda>n::nat. Layer_class baseKeyed)
        [(Some 0, Some (\<lambda>l. Returned (l\<lparr>zindex := 9\<rparr>))),
         (Some 1, Some (\<lambda>l. Returned (l\<lparr>zindex := 7\<rparr>)))] ((\<lambda>n::nat. layerB)(0 := layerA)))
   \<and> zindex (snd (atomicCommit (\<lambda>n::nat. Layer_class baseKeyed)
        [(Some 0, Some (\<lambda>l. Returned (l\<lparr>zindex := 9\<rparr>))),
         (Some 1, Some (\<lambda>l. Returned (l\<lparr>zindex := 7\<rparr>)))] ((\<lambda>n::nat. layerB)(0 := layerA))) 0) = 9
   \<and> zindex (snd (atomicCommit (\<lambda>n::nat. Layer_class baseKeyed)
        [(Some 0, Some (\<lambda>l. Returned (l\<lparr>zindex := 9\<rparr>))),
         (Some 1, Some (\<lambda>l. Returned (l\<lparr>zindex := 7\<rparr>)))] ((\<lambda>n::nat. layerB)(0 := layerA))) 1) = 7"
proof -
  have l0: "\<not> commitLock (((\<lambda>n::nat. layerB)(0 := layerA)) 0)"
    and l1: "\<not> commitLock (((\<lambda>n::nat. layerB)(0 := layerA)) 1)"
    by code_simp+
  have k0: "keepsTransaction (\<lambda>l::layer. Returned (l\<lparr>zindex := 9\<rparr>))"
    and k1: "keepsTransaction (\<lambda>l::layer. Threw (l\<lparr>zindex := 7\<rparr>))"
    and k2: "keepsTransaction (\<lambda>l::layer. Returned (l\<lparr>zindex := 7\<rparr>))"
    by (simp_all add: keepsTransaction_def)
  have hyp1: "\<forall>j \<in> set [(Some 0, Some (\<lambda>l::layer. Returned (l\<lparr>zindex := 9\<rparr>))),
                         (Some (1::nat), Some (\<lambda>l. Threw (l\<lparr>zindex := 7\<rparr>)))].
      \<forall>a f. j = (Some a, Some f) \<longrightarrow>
        (\<lambda>n::nat. Layer_class baseKeyed) a = Layer_class ((\<lambda>n. baseKeyed) a)
        \<and> \<not> commitLock (((\<lambda>n::nat. layerB)(0 := layerA)) a) \<and> keepsTransaction f"
    using l0 l1 k0 k1 by simp
  have hyp2: "\<forall>j \<in> set [(Some 0, Some (\<lambda>l::layer. Returned (l\<lparr>zindex := 9\<rparr>))),
                         (Some (1::nat), Some (\<lambda>l. Returned (l\<lparr>zindex := 7\<rparr>)))].
      \<forall>a f. j = (Some a, Some f) \<longrightarrow>
        (\<lambda>n::nat. Layer_class baseKeyed) a = Layer_class ((\<lambda>n. baseKeyed) a)
        \<and> \<not> commitLock (((\<lambda>n::nat. layerB)(0 := layerA)) a) \<and> keepsTransaction f"
    using l0 l1 k0 k2 by simp
  have f1: "\<not> fst (spec_commitsInTurn (\<lambda>n::nat. Layer_class baseKeyed)
        [(Some 0, Some (\<lambda>l. Returned (l\<lparr>zindex := 9\<rparr>))),
         (Some 1, Some (\<lambda>l. Threw (l\<lparr>zindex := 7\<rparr>)))] ((\<lambda>n::nat. layerB)(0 := layerA)))"
    by (simp add: Layer_class_def) code_simp
  have f2: "fst (spec_commitsInTurn (\<lambda>n::nat. Layer_class baseKeyed)
        [(Some 0, Some (\<lambda>l. Returned (l\<lparr>zindex := 9\<rparr>))),
         (Some 1, Some (\<lambda>l. Returned (l\<lparr>zindex := 7\<rparr>)))] ((\<lambda>n::nat. layerB)(0 := layerA)))"
    by (simp add: Layer_class_def) code_simp
  note T1 = atomicCommit_all_or_nothing [OF hyp1, THEN conjunct2, THEN mp, OF f1]
  note T2 = atomicCommit_all_or_nothing [OF hyp2, THEN conjunct1, THEN mp, OF f2]
  have z0: "zindex (snd (atomicCommit (\<lambda>n::nat. Layer_class baseKeyed)
        [(Some 0, Some (\<lambda>l. Returned (l\<lparr>zindex := 9\<rparr>))),
         (Some 1, Some (\<lambda>l. Returned (l\<lparr>zindex := 7\<rparr>)))] ((\<lambda>n::nat. layerB)(0 := layerA))) 0) = 9"
    and z1: "zindex (snd (atomicCommit (\<lambda>n::nat. Layer_class baseKeyed)
        [(Some 0, Some (\<lambda>l. Returned (l\<lparr>zindex := 9\<rparr>))),
         (Some 1, Some (\<lambda>l. Returned (l\<lparr>zindex := 7\<rparr>)))] ((\<lambda>n::nat. layerB)(0 := layerA))) 1) = 7"
    unfolding T2 by (simp add: Layer_class_def, code_simp)+
  have t2: "fst (atomicCommit (\<lambda>n::nat. Layer_class baseKeyed)
        [(Some 0, Some (\<lambda>l. Returned (l\<lparr>zindex := 9\<rparr>))),
         (Some 1, Some (\<lambda>l. Returned (l\<lparr>zindex := 7\<rparr>)))] ((\<lambda>n::nat. layerB)(0 := layerA)))"
    unfolding T2 by simp
  from l0 l1 k0 k1 k2 f1 T1 [THEN conjunct1]
    T1 [THEN conjunct2, THEN spec, of 0] T1 [THEN conjunct2, THEN spec, of 1] f2 t2 z0 z1
  show ?thesis by (intro conjI)
qed

text \<open>
  The claim as stated fails: layer \<open>A\<close> was committed before the batch (z-index 1 to 5)
  and not rendered since, so its lock is set. In the batch its job commits and the job of
  \<open>B\<close> throws. The call returns false, and \<open>A\<close> is rolled back not to its state before the
  batch (z-index 5) but to the older stash (z-index 1).
\<close>

theorem atomicCommit_all_or_nothing_counterexample:
  "zindex (((\<lambda>n::nat. layerB)
        (0 := snd (commit baseKeyed [\<lambda>x. Returned (x\<lparr>zindex := 5\<rparr>)] layerA))) 0) = 5
   \<and> fst (atomicCommit (\<lambda>n::nat. Layer_class baseKeyed)
        [(Some 0, Some (\<lambda>l. Returned l)), (Some 1, Some (\<lambda>l. Threw l))]
        ((\<lambda>n::nat. layerB)
           (0 := snd (commit baseKeyed [\<lambda>x. Returned (x\<lparr>zindex := 5\<rparr>)] layerA)))) = False
   \<and> zindex (snd (atomicCommit (\<lambda>n::nat. Layer_class baseKeyed)
        [(Some 0, Some (\<lambda>l. Returned l)), (Some 1, Some (\<lambda>l. Threw l))]
        ((\<lambda>n::nat. layerB)
           (0 := snd (commit baseKeyed [\<lambda>x. Returned (x\<lparr>zindex := 5\<rparr>)] layerA)))) 0) = 1"
  by (simp add: Layer_class_def, code_simp)

subsection \<open>Joint resolution\<close>

lemma is_pixel_eq: "is_pixel p (Some q) = (p = q)"
  by (auto simp: is_pixel_def)

lemma isNear_self: "isNear q (Some q) 1"
  by (simp add: isNear_def)

lemma isNear_manhattan:
  "\<bar>row p - row q\<bar> + \<bar>col p - col q\<bar> \<le> 1 \<Longrightarrow> isNear p (Some q) 1"
  by (auto simp: isNear_def)

lemma probeJoint_loop_invisible:
  "probeJoint_loop False key jp first ps (b, made, jl, th) = (b, made, jl, th)"
  by (induction ps) auto

lemma probeJoint_loop_exact:
  "jp \<in> set ps \<Longrightarrow> fst (probeJoint_loop True key jp first ps (b, made, jl, th)) = 2"
proof (induction ps arbitrary: b)
  case Nil
  then show ?case by simp
next
  case (Cons p ps)
  then show ?case
    by (cases "p = jp") (auto simp: is_pixel_eq isNear_self)
qed

lemma probeJoint_loop_near:
  "jp \<notin> set ps \<Longrightarrow>
   probeJoint_loop True key jp first ps (b, made, jl, th)
     = (if list_ex (\<lambda>p. isNear p (Some jp) 1) ps then max b 1 else b, made, jl, th)"
proof (induction ps arbitrary: b)
  case Nil
  then show ?case by simp
next
  case (Cons p ps)
  then show ?case by (auto simp: is_pixel_eq)
qed


lemma probeJoint_invisible:
  "\<not> layerPixelIsVisible keyed cv m (Some jl) (Some jp) \<Longrightarrow>
   fst (probeJoint keyed cv m this (Some jl) key (Some jp)) = 0"
  by (simp add: probeJoint_def Let_def probeJoint_loop_invisible unjoin_def split: option.splits)

lemma probeJoint_exact:
  "layerPixelIsVisible keyed cv m (Some jl) (Some jp) \<Longrightarrow>
   jp \<in> set (filterBoolean (getJoinerPixels cv this)) \<Longrightarrow>
   fst (probeJoint keyed cv m this (Some jl) key (Some jp)) = 2"
proof -
  assume v: "layerPixelIsVisible keyed cv m (Some jl) (Some jp)"
    and e: "jp \<in> set (filterBoolean (getJoinerPixels cv this))"
  let ?aps = "filterBoolean (getJoinerPixels cv this)"
  from e have ne: "length ?aps \<noteq> 0" by auto
  obtain b made jl1 th1 where r:
    "probeJoint_loop True key jp (hd ?aps) ?aps (0, False, jl, this) = (b, made, jl1, th1)"
    by (cases "probeJoint_loop True key jp (hd ?aps) ?aps (0, False, jl, this)") auto
  from probeJoint_loop_exact [OF e, of key "hd ?aps" 0 False jl this] r have "b = 2" by simp
  with v ne r show ?thesis by (simp add: probeJoint_def Let_def)
qed

lemma probeJoint_near:
  assumes v: "layerPixelIsVisible keyed cv m (Some jl) (Some jp)"
    and ne: "jp \<notin> set (filterBoolean (getJoinerPixels cv this))"
    and near: "\<exists>p \<in> set (filterBoolean (getJoinerPixels cv this)).
                 \<bar>row p - row jp\<bar> + \<bar>col p - col jp\<bar> \<le> 1"
  shows "probeJoint keyed cv m this (Some jl) key (Some jp) = (1, Some jl, this)"
proof -
  let ?aps = "filterBoolean (getJoinerPixels cv this)"
  from near have nz: "length ?aps \<noteq> 0" by auto
  from near have ex: "list_ex (\<lambda>p. isNear p (Some jp) 1) ?aps"
    by (auto simp: list_ex_iff intro: isNear_manhattan)
  have r: "probeJoint_loop True key jp (hd ?aps) ?aps (0, False, jl, this) = (1, False, jl, this)"
    using probeJoint_loop_near [OF ne, of key "hd ?aps" 0 False jl this] ex by simp
  with v nz show ?thesis
    by (simp add: probeJoint_def Let_def unjoin_def split: option.splits)
qed


lemma findJoints_probe_single:
  "lid this \<noteq> lid jl \<Longrightarrow>
   fst (findJoints_probe keyed cv m key jp [this] (- 1, jl, []))
     = int (fst (probeJoint keyed cv m this (Some jl) key (Some jp)))"
  by (cases "probeJoint keyed cv m this (Some jl) key (Some jp)") (auto simp: split_def)

lemma probeJoint_loop_layers:
  "snd (snd (probeJoint_loop v key jp first ps (b, made, jl, th))) = (jl, th)"
proof (cases v)
  case True
  have "snd (snd (probeJoint_loop True key jp first ps (b, made, jl, th))) = (jl, th)"
    by (induction ps arbitrary: b) (simp_all add: join_def)
  with True show ?thesis by simp
next
  case False
  then show ?thesis by (simp add: probeJoint_loop_invisible)
qed

lemma probeJoint_loop_far:
  "\<forall>p \<in> set ps. \<not> isNear p (Some jp) 1 \<Longrightarrow>
   probeJoint_loop v key jp first ps (b, made, jl, th) = (b, made, jl, th)"
  by (induction ps) simp_all

lemma probeJoint_layers:
  "snd (probeJoint keyed cv m this (Some jl) key (Some jp)) = (Some jl, this)"
proof -
  let ?aps = "filterBoolean (getJoinerPixels cv this)"
  let ?v = "layerPixelIsVisible keyed cv m (Some jl) (Some jp)"
  obtain b made jl1 th1 where r:
    "probeJoint_loop ?v key jp (hd ?aps) ?aps (0, False, jl, this) = (b, made, jl1, th1)"
    by (cases "probeJoint_loop ?v key jp (hd ?aps) ?aps (0, False, jl, this)") auto
  from probeJoint_loop_layers [of ?v key jp "hd ?aps" ?aps 0 False jl this] r
  have "jl1 = jl" "th1 = this" by simp_all
  with r show ?thesis
    by (simp add: probeJoint_def Let_def unjoin_def split: option.splits)
qed

lemma probeJoint_far:
  assumes "\<forall>p \<in> set (filterBoolean (getJoinerPixels cv this)). \<not> isNear p (Some jp) 1"
  shows "fst (probeJoint keyed cv m this (Some jl) key (Some jp)) = 0"
proof -
  let ?aps = "filterBoolean (getJoinerPixels cv this)"
  have "probeJoint_loop (layerPixelIsVisible keyed cv m (Some jl) (Some jp)) key jp (hd ?aps)
          ?aps (0, False, jl, this) = (0, False, jl, this)"
    by (rule probeJoint_loop_far [OF assms])
  then show ?thesis by (simp add: probeJoint_def Let_def)
qed

text \<open>
  C5 (the code departs from the claim). \<open>probeJoint\<close>, run for a moved connector \<open>this\<close>
  against the attachment point \<open>jp\<close> (key \<open>key\<close>) of the layer \<open>jl\<close>, never changes \<open>jl\<close> or
  \<open>this\<close>: \<open>join\<close> and \<open>unjoin\<close> have empty bodies. So when the point is visible and an
  endpoint of the connector coincides with it, the state is 2 and \<open>findJoints\<close> renders the
  point jointed, but the \<open>joints\<close> of the owner are what they were: no joint is recorded.
  And when no endpoint is near the point, the state is 0, but a joint the owner held for
  this connector and key is still there: it is not removed.
\<close>

theorem probeJoint_records_no_joint:
  fixes this jl :: "'a layer_scheme"
  shows
    "snd (probeJoint keyed cv m this (Some jl) key (Some jp)) = (Some jl, this)
     \<and> (layerPixelIsVisible keyed cv m (Some jl) (Some jp)
        \<and> jp \<in> set (filterBoolean (getJoinerPixels cv this))
      \<longrightarrow> fst (probeJoint keyed cv m this (Some jl) key (Some jp)) = 2
          \<and> (lid this \<noteq> lid jl \<longrightarrow>
               jointRenderingOf (fst (findJoints_probe keyed cv m key jp [this] (- 1, jl, [])))
                 = RenderJoint))
     \<and> ((\<forall>p \<in> set (filterBoolean (getJoinerPixels cv this)). \<not> isNear p (Some jp) 1)
      \<longrightarrow> fst (probeJoint keyed cv m this (Some jl) key (Some jp)) = 0)"
proof (intro conjI impI)
  show "snd (probeJoint keyed cv m this (Some jl) key (Some jp)) = (Some jl, this)"
    by (rule probeJoint_layers)
next
  assume h: "layerPixelIsVisible keyed cv m (Some jl) (Some jp)
        \<and> jp \<in> set (filterBoolean (getJoinerPixels cv this))"
  then show s2: "fst (probeJoint keyed cv m this (Some jl) key (Some jp)) = 2"
    by (simp add: probeJoint_exact)
  assume d: "lid this \<noteq> lid jl"
  show "jointRenderingOf (fst (findJoints_probe keyed cv m key jp [this] (- 1, jl, [])))
          = RenderJoint"
    unfolding findJoints_probe_single [OF d] s2 by (simp add: jointRenderingOf_def)
next
  assume "\<forall>p \<in> set (filterBoolean (getJoinerPixels cv this)). \<not> isNear p (Some jp) 1"
  then show "fst (probeJoint keyed cv m this (Some jl) key (Some jp)) = 0"
    by (rule probeJoint_far)
qed

text \<open>
  Layer \<open>A\<close> owns the cell (0, 0), which is visible. A line \<open>L\<close> from (0, 0) to (0, 3) meets
  it exactly: the state is 2, the point is rendered jointed, and \<open>A\<close> comes back with its
  joint list still empty. With \<open>A\<close> holding the joint of \<open>L\<close> for the key and \<open>L\<close> moved away
  to (9, 9)-(9, 12), the state is 0 and \<open>A\<close> comes back still holding the joint. (A line
  from (1, 1), a diagonal neighbour at Manhattan distance 2, gives state 1.)
\<close>

theorem probeJoint_records_no_joint_witness:
  "lid (sampleLine \<lparr>row = 0, col = 0\<rparr> \<lparr>row = 0, col = 3\<rparr>) \<noteq> lid layerA
   \<and> layerPixelIsVisible baseKeyed defaultCanvas (add (Some (sampleLine \<lparr>row = 0, col = 0\<rparr> \<lparr>row = 0, col = 3\<rparr>)) (add (Some layerA) LayerManager_new)) (Some layerA) (Some \<lparr>row = 0, col = 0\<rparr>)
      \<and> \<lparr>row = 0, col = 0\<rparr> \<in> set (filterBoolean (getJoinerPixels defaultCanvas (sampleLine \<lparr>row = 0, col = 0\<rparr> \<lparr>row = 0, col = 3\<rparr>)))
   \<and> fst (probeJoint baseKeyed defaultCanvas (add (Some (sampleLine \<lparr>row = 0, col = 0\<rparr> \<lparr>row = 0, col = 3\<rparr>)) (add (Some layerA) LayerManager_new))
          (sampleLine \<lparr>row = 0, col = 0\<rparr> \<lparr>row = 0, col = 3\<rparr>) (Some layerA) ''t'' (Some \<lparr>row = 0, col = 0\<rparr>)) = 2
   \<and> jointRenderingOf (fst (findJoints_probe baseKeyed defaultCanvas (add (Some (sampleLine \<lparr>row = 0, col = 0\<rparr> \<lparr>row = 0, col = 3\<rparr>)) (add (Some layerA) LayerManager_new))
          ''t'' \<lparr>row = 0, col = 0\<rparr> [(sampleLine \<lparr>row = 0, col = 0\<rparr> \<lparr>row = 0, col = 3\<rparr>)] (- 1, layerA, []))) = RenderJoint
   \<and> joints layerA = []
   \<and> snd (probeJoint baseKeyed defaultCanvas (add (Some (sampleLine \<lparr>row = 0, col = 0\<rparr> \<lparr>row = 0, col = 3\<rparr>)) (add (Some layerA) LayerManager_new))
          (sampleLine \<lparr>row = 0, col = 0\<rparr> \<lparr>row = 0, col = 3\<rparr>) (Some layerA) ''t'' (Some \<lparr>row = 0, col = 0\<rparr>))
       = (Some layerA, (sampleLine \<lparr>row = 0, col = 0\<rparr> \<lparr>row = 0, col = 3\<rparr>))
   \<and> list_all (\<lambda>p. \<not> isNear p (Some \<lparr>row = 0, col = 0\<rparr>) 1)
         (filterBoolean (getJoinerPixels defaultCanvas (sampleLine \<lparr>row = 9, col = 9\<rparr> \<lparr>row = 9, col = 12\<rparr>)))
   \<and> fst (probeJoint baseKeyed defaultCanvas (add (Some (sampleLine \<lparr>row = 9, col = 9\<rparr> \<lparr>row = 9, col = 12\<rparr>)) (add (Some (layerA\<lparr>joints := [Joint ''L'' ''t'']\<rparr>)) LayerManager_new))
          (sampleLine \<lparr>row = 9, col = 9\<rparr> \<lparr>row = 9, col = 12\<rparr>) (Some (layerA\<lparr>joints := [Joint ''L'' ''t'']\<rparr>)) ''t'' (Some \<lparr>row = 0, col = 0\<rparr>)) = 0
   \<and> snd (probeJoint baseKeyed defaultCanvas (add (Some (sampleLine \<lparr>row = 9, col = 9\<rparr> \<lparr>row = 9, col = 12\<rparr>)) (add (Some (layerA\<lparr>joints := [Joint ''L'' ''t'']\<rparr>)) LayerManager_new))
          (sampleLine \<lparr>row = 9, col = 9\<rparr> \<lparr>row = 9, col = 12\<rparr>) (Some (layerA\<lparr>joints := [Joint ''L'' ''t'']\<rparr>)) ''t'' (Some \<lparr>row = 0, col = 0\<rparr>))
       = (Some (layerA\<lparr>joints := [Joint ''L'' ''t'']\<rparr>), (sampleLine \<lparr>row = 9, col = 9\<rparr> \<lparr>row = 9, col = 12\<rparr>))
   \<and> fst (probeJoint baseKeyed defaultCanvas (add (Some (sampleLine \<lparr>row = 1, col = 1\<rparr> \<lparr>row = 1, col = 4\<rparr>)) (add (Some layerA) LayerManager_new))
          (sampleLine \<lparr>row = 1, col = 1\<rparr> \<lparr>row = 1, col = 4\<rparr>) (Some layerA) ''t'' (Some \<lparr>row = 0, col = 0\<rparr>)) = 1"
proof -
  have d: "lid (sampleLine \<lparr>row = 0, col = 0\<rparr> \<lparr>row = 0, col = 3\<rparr>) \<noteq> lid layerA"
    by code_simp
  have a: "layerPixelIsVisible baseKeyed defaultCanvas (add (Some (sampleLine \<lparr>row = 0, col = 0\<rparr> \<lparr>row = 0, col = 3\<rparr>)) (add (Some layerA) LayerManager_new)) (Some layerA) (Some \<lparr>row = 0, col = 0\<rparr>)
      \<and> \<lparr>row = 0, col = 0\<rparr> \<in> set (filterBoolean (getJoinerPixels defaultCanvas (sampleLine \<lparr>row = 0, col = 0\<rparr> \<lparr>row = 0, col = 3\<rparr>)))"
    by code_simp
  have b: "(\<forall>p \<in> set (filterBoolean (getJoinerPixels defaultCanvas (sampleLine \<lparr>row = 9, col = 9\<rparr> \<lparr>row = 9, col = 12\<rparr>))).
         \<not> isNear p (Some \<lparr>row = 0, col = 0\<rparr>) 1)"
    by code_simp
  have bl: "list_all (\<lambda>p. \<not> isNear p (Some \<lparr>row = 0, col = 0\<rparr>) 1)
         (filterBoolean (getJoinerPixels defaultCanvas (sampleLine \<lparr>row = 9, col = 9\<rparr> \<lparr>row = 9, col = 12\<rparr>)))"
    using b by (simp only: list_all_iff)
  have j: "joints layerA = []"
    by code_simp
  have g: "fst (probeJoint baseKeyed defaultCanvas (add (Some (sampleLine \<lparr>row = 1, col = 1\<rparr> \<lparr>row = 1, col = 4\<rparr>)) (add (Some layerA) LayerManager_new))
          (sampleLine \<lparr>row = 1, col = 1\<rparr> \<lparr>row = 1, col = 4\<rparr>) (Some layerA) ''t'' (Some \<lparr>row = 0, col = 0\<rparr>)) = 1"
    by code_simp
  note A = probeJoint_records_no_joint [where keyed = baseKeyed and cv = defaultCanvas
      and key = "''t''" and jl = layerA and jp = "\<lparr>row = 0, col = 0\<rparr>" and this = "sampleLine \<lparr>row = 0, col = 0\<rparr> \<lparr>row = 0, col = 3\<rparr>"
      and m = "add (Some (sampleLine \<lparr>row = 0, col = 0\<rparr> \<lparr>row = 0, col = 3\<rparr>)) (add (Some layerA) LayerManager_new)"]
  note B = probeJoint_records_no_joint [where keyed = baseKeyed and cv = defaultCanvas
      and key = "''t''" and jl = "layerA\<lparr>joints := [Joint ''L'' ''t'']\<rparr>" and jp = "\<lparr>row = 0, col = 0\<rparr>" and this = "sampleLine \<lparr>row = 9, col = 9\<rparr> \<lparr>row = 9, col = 12\<rparr>"
      and m = "add (Some (sampleLine \<lparr>row = 9, col = 9\<rparr> \<lparr>row = 9, col = 12\<rparr>)) (add (Some (layerA\<lparr>joints := [Joint ''L'' ''t'']\<rparr>)) LayerManager_new)"]
  note A2 = A [THEN conjunct2, THEN conjunct1, THEN mp, OF a]
  from d a A2 [THEN conjunct1] A2 [THEN conjunct2, THEN mp, OF d] j A [THEN conjunct1]
    bl B [THEN conjunct2, THEN conjunct2, THEN mp, OF b] B [THEN conjunct1] g
  show ?thesis by (elim conjE, intro conjI)
qed

subsection \<open>Step line: the orientation kept\<close>

lemma set_filterBoolean: "set (filterBoolean ps) = {q. Some q \<in> set ps}"
  by (induction ps) (auto simp: filterBoolean_def)

lemma length_filter_filterBoolean:
  "length (filter (\<lambda>pixel. case pixel of None \<Rightarrow> False | Some p \<Rightarrow> Q p) ps)
     = length (filter Q (filterBoolean ps))"
  by (induction ps) (auto simp: filterBoolean_def)

lemma abs_le_one: "\<bar>x::int\<bar> \<le> 1 \<longleftrightarrow> x = - 1 \<or> x = 0 \<or> x = 1"
  by arith

lemma in_directions:
  "(dr, dc) \<in> set directions \<longleftrightarrow> \<bar>dr\<bar> \<le> 1 \<and> \<bar>dc\<bar> \<le> 1"
  unfolding directions_def abs_le_one by auto


lemma near_direction:
  "list_ex (\<lambda>(dr, dc). case getPixelByRowCol cv (row p + dr) (col p + dc) of
                          None \<Rightarrow> False
                        | Some nearPixel \<Rightarrow> Some nearPixel \<in> set ps) directions
     \<longleftrightarrow> list_ex (spec_nearCell cv p) (filterBoolean ps)"
proof
  assume "list_ex (\<lambda>(dr, dc). case getPixelByRowCol cv (row p + dr) (col p + dc) of
                          None \<Rightarrow> False
                        | Some nearPixel \<Rightarrow> Some nearPixel \<in> set ps) directions"
  then obtain x where x: "x \<in> set directions"
    and c: "(\<lambda>(dr, dc). case getPixelByRowCol cv (row p + dr) (col p + dc) of
                          None \<Rightarrow> False
                        | Some nearPixel \<Rightarrow> Some nearPixel \<in> set ps) x"
    unfolding list_ex_iff by (rule bexE)
  obtain dr dc where xd: "x = (dr, dc)" by (cases x)
  from x have d: "(dr, dc) \<in> set directions" by (simp add: xd)
  from c have c': "case getPixelByRowCol cv (row p + dr) (col p + dc) of
                          None \<Rightarrow> False
                        | Some nearPixel \<Rightarrow> Some nearPixel \<in> set ps"
    by (simp add: xd)
  then obtain np where g: "getPixelByRowCol cv (row p + dr) (col p + dc) = Some np"
    and m: "Some np \<in> set ps"
    by (cases "getPixelByRowCol cv (row p + dr) (col p + dc)") simp_all
  have np: "row np = row p + dr" "col np = col p + dc"
    using g by (auto simp: getPixelByRowCol_def split: if_splits)
  have on: "getPixelById cv np \<noteq> None"
    using g by (simp add: getPixelById_def np)
  from d have "\<bar>dr\<bar> \<le> 1 \<and> \<bar>dc\<bar> \<le> 1" by (simp only: in_directions)
  then have "\<bar>row np - row p\<bar> \<le> 1 \<and> \<bar>col np - col p\<bar> \<le> 1"
    by (simp add: np)
  with on have "spec_nearCell cv p np" by (simp add: spec_nearCell_def)
  moreover from m have "np \<in> set (filterBoolean ps)" by (simp add: set_filterBoolean)
  ultimately show "list_ex (spec_nearCell cv p) (filterBoolean ps)"
    unfolding list_ex_iff by (rule_tac x = np in bexI)
next
  assume "list_ex (spec_nearCell cv p) (filterBoolean ps)"
  then obtain q where q: "q \<in> set (filterBoolean ps)" and n: "spec_nearCell cv p q"
    unfolding list_ex_iff by (rule bexE)
  from q have m: "Some q \<in> set ps" by (simp add: set_filterBoolean)
  from n have "\<bar>row q - row p\<bar> \<le> 1 \<and> \<bar>col q - col p\<bar> \<le> 1"
    by (simp add: spec_nearCell_def)
  then have d: "(row q - row p, col q - col p) \<in> set directions"
    by (simp only: in_directions)
  from n have "getPixelByRowCol cv (row q) (col q) \<noteq> None"
    by (simp add: spec_nearCell_def getPixelById_def)
  then have g: "getPixelByRowCol cv (row q) (col q) = Some q"
    by (simp add: getPixelByRowCol_def split: if_splits)
  have c: "(\<lambda>(dr, dc). case getPixelByRowCol cv (row p + dr) (col p + dc) of
                          None \<Rightarrow> False
                        | Some nearPixel \<Rightarrow> Some nearPixel \<in> set ps)
            (row q - row p, col q - col p)"
    using m by (simp add: g)
  show "list_ex (\<lambda>(dr, dc). case getPixelByRowCol cv (row p + dr) (col p + dc) of
                          None \<Rightarrow> False
                        | Some nearPixel \<Rightarrow> Some nearPixel \<in> set ps) directions"
    unfolding list_ex_iff using c d
    by (rule_tac x = "(row q - row p, col q - col p)" in bexI)
qed


lemma Layer_getNearOverlappingCount_spec:
  assumes "lid shape \<noteq> lid line"
  shows "Layer_getNearOverlappingCount cv shape (Some line)
           = length (filter (\<lambda>p. list_ex (spec_nearCell cv p) (filterBoolean (pixels line)))
                       (filterBoolean (pixels shape)))"
proof -
  have "Layer_getNearOverlappingCount cv shape (Some line)
      = (if length (pixels shape) = 0 then 0
         else length (filter
                 (\<lambda>pixel. case pixel of
                    None \<Rightarrow> False
                  | Some p \<Rightarrow> list_ex (spec_nearCell cv p) (filterBoolean (pixels line)))
                 (pixels shape)))"
    unfolding Layer_getNearOverlappingCount_def near_direction
    using assms by (simp only: option.case) simp
  also have "\<dots> = length (filter (\<lambda>p. list_ex (spec_nearCell cv p) (filterBoolean (pixels line)))
                       (filterBoolean (pixels shape)))"
    unfolding length_filter_filterBoolean by (simp add: filterBoolean_def)
  finally show ?thesis .
qed

lemma fold_count:
  "fold (\<lambda>x c. if A x then c else if B x then c else c + f x) xs (a::nat)
     = a + sum_list (map f (filter (\<lambda>x. \<not> A x \<and> \<not> B x) xs))"
  by (induction xs arbitrary: a) simp_all

lemma avoid_listedShape: "k \<notin> set layersToAvoid \<longleftrightarrow> \<not> spec_listedShape k"
  by (simp add: layersToAvoid_def spec_listedShape_def)

lemma empty_layer_upd: "empty_layer (l\<lparr>pixels := a, values' := b\<rparr>) = empty_layer l"
  by (simp add: empty_layer_def)

lemma empty_layer_values: "empty_layer (l\<lparr>values' := b\<rparr>) = empty_layer l"
  by (simp add: empty_layer_def)

lemma empty_layer_idem: "empty_layer (empty_layer l) = empty_layer l"
  by (simp add: empty_layer_def)

lemma empty_layer_add: "empty_layer (Layer_add p v l) = empty_layer l"
  by (cases p) (simp_all add: Layer_add_def empty_layer_def)

lemma empty_layer_fold:
  "empty_layer (fold (\<lambda>x. Layer_add (f x) (g x)) xs l) = empty_layer l"
  by (induction xs arbitrary: l) (simp_all add: empty_layer_add)

lemma drawFromTo_cong:
  "empty_layer x = empty_layer y \<Longrightarrow> drawFromTo cm cv fp tp b x = drawFromTo cm cv fp tp b y"
  by (simp only: drawFromTo_def)

lemma empty_layer_drawFromTo:
  "empty_layer (drawFromTo cm cv fp tp b l) = empty_layer l"
  unfolding drawFromTo_def Let_def
  by (simp add: empty_layer_add empty_layer_fold empty_layer_values empty_layer_idem
        split: option.split)

lemma empty_layer_restore:
  assumes "empty_layer x = empty_layer y"
  shows "x\<lparr>pixels := pixels y, values' := values' y\<rparr> = y"
proof -
  have "x\<lparr>pixels := pixels y, values' := values' y\<rparr>
          = (empty_layer x)\<lparr>pixels := pixels y, values' := values' y\<rparr>"
    by (simp add: empty_layer_def)
  also have "\<dots> = (empty_layer y)\<lparr>pixels := pixels y, values' := values' y\<rparr>"
    by (simp only: assms)
  also have "\<dots> = y" by (simp add: empty_layer_def)
  finally show ?thesis .
qed

lemma empty_layer_preference:
  assumes "empty_layer x = empty_layer y"
  shows "verticalFirstPreference x = verticalFirstPreference y"
proof -
  have "verticalFirstPreference (empty_layer x) = verticalFirstPreference (empty_layer y)"
    by (simp only: assms)
  then show ?thesis by (simp add: empty_layer_def)
qed



lemma getNearOverlappingCount_spec:
  "getNearOverlappingCount cv m (Some line) (Some layersToAvoid)
     = spec_nearOverlaps spec_listedShape cv m line"
proof -
  have "getNearOverlappingCount cv m (Some line) (Some layersToAvoid)
          = 0 + sum_list (map (\<lambda>layer. Layer_getNearOverlappingCount cv layer (Some line))
              (filter (\<lambda>layer. \<not> lid layer = lid line \<and> \<not> kind layer \<notin> set layersToAvoid)
                 (layers m)))"
    unfolding getNearOverlappingCount_def option.case by (rule fold_count)
  also have "\<dots> = sum_list (map (\<lambda>layer. Layer_getNearOverlappingCount cv layer (Some line))
              (filter (\<lambda>layer. lid layer \<noteq> lid line \<and> spec_listedShape (kind layer))
                 (layers m)))"
    unfolding avoid_listedShape by simp
  also have "\<dots> = spec_nearOverlaps spec_listedShape cv m line"
    unfolding spec_nearOverlaps_def
    by (rule arg_cong [where f = sum_list], rule map_cong [OF refl])
      (simp add: Layer_getNearOverlappingCount_spec)
  finally show ?thesis .
qed

text \<open>
  C6 (as amended). For every step-line draw between two anchors, \<open>drawLayer\<close> leaves the
  layer as the raster of one of the two orientations: the preferred orientation
  (horizontal-first, or vertical-first when \<open>verticalFirstPreference\<close> is set) when its
  near-overlap count is at most the other's plus the tie margin 2, otherwise the other
  orientation, which then has fewer near-overlaps. The count of a raster is taken over the
  other layers of kind text, square, circle, diamond or table: the number of their cells
  that are on a canvas cell of the raster or on one of the eight neighbours of one.
  Layers of kind free, like the lines, are not counted.
\<close>

theorem drawLayer_keeps_orientation:
  assumes "fromPixel l = Some fp"
  shows "drawLayer cm cv m (Some tp) l
           = rasterOf cm cv fp tp (setToPixel (Some tp) l)
               (spec_kept (spec_preferred l)
                  (\<lambda>orientation. spec_nearOverlaps spec_listedShape cv m
                     (rasterOf cm cv fp tp (setToPixel (Some tp) l) orientation)))"
proof -
  define l1 where "l1 = setToPixel (Some tp) l"
  define lH where "lH = drawFromTo cm cv fp tp False l1"
  define lV where "lV = drawFromTo cm cv fp tp True l1"
  define oH where "oH = spec_nearOverlaps spec_listedShape cv m lH"
  define oV where "oV = spec_nearOverlaps spec_listedShape cv m lV"
  have f: "fromPixel l1 = Some fp" and t: "toPixel l1 = Some tp"
    and p: "verticalFirstPreference l1 = verticalFirstPreference l"
    using assms by (simp_all add: l1_def setToPixel_def)
  have eH: "empty_layer lH = empty_layer l1" and eV: "empty_layer lV = empty_layer l1"
    by (simp_all add: lH_def lV_def empty_layer_drawFromTo)
  have v: "drawFromTo cm cv fp tp True (lH\<lparr>pixels := pixels l1, values' := values' l1\<rparr>) = lV"
    unfolding lV_def by (rule drawFromTo_cong) (simp add: empty_layer_upd eH)
  have r: "lV\<lparr>pixels := pixels lH, values' := values' lH\<rparr> = lH"
    by (rule empty_layer_restore) (simp add: eH eV)
  have pv: "verticalFirstPreference lV = verticalFirstPreference l"
    using empty_layer_preference [OF eV] p by simp
  have code: "drawLayer cm cv m (Some tp) l =
      (if verticalFirstPreference l then (if oV \<le> oH + 2 then lV else lH)
       else (if oH \<le> oV + 2 then lH else lV))"
    unfolding drawLayer_def Let_def l1_def [symmetric]
    by (simp add: f t lH_def [symmetric] v r pv getNearOverlappingCount_spec oH_def oV_def)
  have spec: "rasterOf cm cv fp tp l1
               (spec_kept (spec_preferred l)
                  (\<lambda>orientation. spec_nearOverlaps spec_listedShape cv m
                     (rasterOf cm cv fp tp l1 orientation)))
       = (if verticalFirstPreference l then (if oV \<le> oH + 2 then lV else lH)
          else (if oH \<le> oV + 2 then lH else lV))"
    by (simp add: rasterOf_def spec_kept_def spec_preferred_def spec_tieMargin_def
          lH_def [symmetric] lV_def [symmetric] oH_def [symmetric] oV_def [symmetric])
  show ?thesis unfolding code l1_def [symmetric] spec ..
qed

text \<open>
  The step line \<open>S\<close> from (5, 5) to (8, 9) prefers horizontal-first, whose raster runs
  along row 5 and down column 9; the vertical-first raster runs down column 5 and along
  row 8. A square with the cells (4, 7), (4, 8), (4, 9) gives the counts 3 and 0: the
  vertical-first raster is kept. A square with the cells (4, 7), (4, 8) gives the counts
  2 and 0: the preferred horizontal-first raster is kept. With vertical-first preferred
  and a square with the cells (7, 4), (8, 4), (9, 4), the counts are 0 and 3: the
  horizontal-first raster is kept.
\<close>

theorem drawLayer_keeps_orientation_witness:
  "fromPixel (sampleStep False) = Some \<lparr>row = 5, col = 5\<rparr>
   \<and> (spec_kept (spec_preferred (sampleStep False))
          (\<lambda>orientation. spec_nearOverlaps spec_listedShape defaultCanvas (add (Some (sampleShape Square [\<lparr>row = 4, col = 7\<rparr>, \<lparr>row = 4, col = 8\<rparr>, \<lparr>row = 4, col = 9\<rparr>])) LayerManager_new)
             (rasterOf sampleChars defaultCanvas \<lparr>row = 5, col = 5\<rparr> \<lparr>row = 8, col = 9\<rparr>
                (setToPixel (Some \<lparr>row = 8, col = 9\<rparr>) (sampleStep False)) orientation))) = VerticalFirst
   \<and> (drawLayer sampleChars defaultCanvas (add (Some (sampleShape Square [\<lparr>row = 4, col = 7\<rparr>, \<lparr>row = 4, col = 8\<rparr>, \<lparr>row = 4, col = 9\<rparr>])) LayerManager_new)
          (Some \<lparr>row = 8, col = 9\<rparr>) (sampleStep False))
       = (rasterOf sampleChars defaultCanvas \<lparr>row = 5, col = 5\<rparr> \<lparr>row = 8, col = 9\<rparr>
          (setToPixel (Some \<lparr>row = 8, col = 9\<rparr>) (sampleStep False)) VerticalFirst)
   \<and> pixels (drawLayer sampleChars defaultCanvas (add (Some (sampleShape Square [\<lparr>row = 4, col = 7\<rparr>, \<lparr>row = 4, col = 8\<rparr>, \<lparr>row = 4, col = 9\<rparr>])) LayerManager_new)
          (Some \<lparr>row = 8, col = 9\<rparr>) (sampleStep False))
       = map Some [\<lparr>row = 5, col = 5\<rparr>, \<lparr>row = 6, col = 5\<rparr>, \<lparr>row = 7, col = 5\<rparr>, \<lparr>row = 8, col = 5\<rparr>,
          \<lparr>row = 8, col = 6\<rparr>, \<lparr>row = 8, col = 7\<rparr>, \<lparr>row = 8, col = 8\<rparr>, \<lparr>row = 8, col = 9\<rparr>]
   \<and> (spec_kept (spec_preferred (sampleStep False))
          (\<lambda>orientation. spec_nearOverlaps spec_listedShape defaultCanvas (add (Some (sampleShape Square [\<lparr>row = 4, col = 7\<rparr>, \<lparr>row = 4, col = 8\<rparr>])) LayerManager_new)
             (rasterOf sampleChars defaultCanvas \<lparr>row = 5, col = 5\<rparr> \<lparr>row = 8, col = 9\<rparr>
                (setToPixel (Some \<lparr>row = 8, col = 9\<rparr>) (sampleStep False)) orientation))) = HorizontalFirst
   \<and> (drawLayer sampleChars defaultCanvas (add (Some (sampleShape Square [\<lparr>row = 4, col = 7\<rparr>, \<lparr>row = 4, col = 8\<rparr>])) LayerManager_new)
          (Some \<lparr>row = 8, col = 9\<rparr>) (sampleStep False))
       = (rasterOf sampleChars defaultCanvas \<lparr>row = 5, col = 5\<rparr> \<lparr>row = 8, col = 9\<rparr>
          (setToPixel (Some \<lparr>row = 8, col = 9\<rparr>) (sampleStep False)) HorizontalFirst)
   \<and> pixels (drawLayer sampleChars defaultCanvas (add (Some (sampleShape Square [\<lparr>row = 4, col = 7\<rparr>, \<lparr>row = 4, col = 8\<rparr>])) LayerManager_new)
          (Some \<lparr>row = 8, col = 9\<rparr>) (sampleStep False))
       = map Some [\<lparr>row = 5, col = 5\<rparr>, \<lparr>row = 5, col = 6\<rparr>, \<lparr>row = 5, col = 7\<rparr>, \<lparr>row = 5, col = 8\<rparr>,
          \<lparr>row = 5, col = 9\<rparr>, \<lparr>row = 6, col = 9\<rparr>, \<lparr>row = 7, col = 9\<rparr>, \<lparr>row = 8, col = 9\<rparr>]
   \<and> fromPixel (sampleStep True) = Some \<lparr>row = 5, col = 5\<rparr>
   \<and> (spec_kept (spec_preferred (sampleStep True))
          (\<lambda>orientation. spec_nearOverlaps spec_listedShape defaultCanvas (add (Some (sampleShape Square [\<lparr>row = 7, col = 4\<rparr>, \<lparr>row = 8, col = 4\<rparr>, \<lparr>row = 9, col = 4\<rparr>])) LayerManager_new)
             (rasterOf sampleChars defaultCanvas \<lparr>row = 5, col = 5\<rparr> \<lparr>row = 8, col = 9\<rparr>
                (setToPixel (Some \<lparr>row = 8, col = 9\<rparr>) (sampleStep True)) orientation))) = HorizontalFirst
   \<and> pixels (drawLayer sampleChars defaultCanvas (add (Some (sampleShape Square [\<lparr>row = 7, col = 4\<rparr>, \<lparr>row = 8, col = 4\<rparr>, \<lparr>row = 9, col = 4\<rparr>])) LayerManager_new)
          (Some \<lparr>row = 8, col = 9\<rparr>) (sampleStep True))
       = map Some [\<lparr>row = 5, col = 5\<rparr>, \<lparr>row = 5, col = 6\<rparr>, \<lparr>row = 5, col = 7\<rparr>, \<lparr>row = 5, col = 8\<rparr>,
          \<lparr>row = 5, col = 9\<rparr>, \<lparr>row = 6, col = 9\<rparr>, \<lparr>row = 7, col = 9\<rparr>, \<lparr>row = 8, col = 9\<rparr>]"
proof -
  have h: "fromPixel (sampleStep False) = Some \<lparr>row = 5, col = 5\<rparr>"
    by code_simp
  have k3: "(spec_kept (spec_preferred (sampleStep False))
          (\<lambda>orientation. spec_nearOverlaps spec_listedShape defaultCanvas (add (Some (sampleShape Square [\<lparr>row = 4, col = 7\<rparr>, \<lparr>row = 4, col = 8\<rparr>, \<lparr>row = 4, col = 9\<rparr>])) LayerManager_new)
             (rasterOf sampleChars defaultCanvas \<lparr>row = 5, col = 5\<rparr> \<lparr>row = 8, col = 9\<rparr>
                (setToPixel (Some \<lparr>row = 8, col = 9\<rparr>) (sampleStep False)) orientation))) = VerticalFirst"
    by code_simp
  have k2: "(spec_kept (spec_preferred (sampleStep False))
          (\<lambda>orientation. spec_nearOverlaps spec_listedShape defaultCanvas (add (Some (sampleShape Square [\<lparr>row = 4, col = 7\<rparr>, \<lparr>row = 4, col = 8\<rparr>])) LayerManager_new)
             (rasterOf sampleChars defaultCanvas \<lparr>row = 5, col = 5\<rparr> \<lparr>row = 8, col = 9\<rparr>
                (setToPixel (Some \<lparr>row = 8, col = 9\<rparr>) (sampleStep False)) orientation))) = HorizontalFirst"
    by code_simp
  note T3 = drawLayer_keeps_orientation [OF h, of sampleChars defaultCanvas
      "add (Some (sampleShape Square [\<lparr>row = 4, col = 7\<rparr>, \<lparr>row = 4, col = 8\<rparr>, \<lparr>row = 4, col = 9\<rparr>])) LayerManager_new" "\<lparr>row = 8, col = 9\<rparr>", unfolded k3]
  note T2 = drawLayer_keeps_orientation [OF h, of sampleChars defaultCanvas
      "add (Some (sampleShape Square [\<lparr>row = 4, col = 7\<rparr>, \<lparr>row = 4, col = 8\<rparr>])) LayerManager_new" "\<lparr>row = 8, col = 9\<rparr>", unfolded k2]
  have p3: "pixels (drawLayer sampleChars defaultCanvas (add (Some (sampleShape Square [\<lparr>row = 4, col = 7\<rparr>, \<lparr>row = 4, col = 8\<rparr>, \<lparr>row = 4, col = 9\<rparr>])) LayerManager_new)
          (Some \<lparr>row = 8, col = 9\<rparr>) (sampleStep False))
       = map Some [\<lparr>row = 5, col = 5\<rparr>, \<lparr>row = 6, col = 5\<rparr>, \<lparr>row = 7, col = 5\<rparr>, \<lparr>row = 8, col = 5\<rparr>,
          \<lparr>row = 8, col = 6\<rparr>, \<lparr>row = 8, col = 7\<rparr>, \<lparr>row = 8, col = 8\<rparr>, \<lparr>row = 8, col = 9\<rparr>]"
    unfolding T3 by code_simp
  have p2: "pixels (drawLayer sampleChars defaultCanvas (add (Some (sampleShape Square [\<lparr>row = 4, col = 7\<rparr>, \<lparr>row = 4, col = 8\<rparr>])) LayerManager_new)
          (Some \<lparr>row = 8, col = 9\<rparr>) (sampleStep False))
       = map Some [\<lparr>row = 5, col = 5\<rparr>, \<lparr>row = 5, col = 6\<rparr>, \<lparr>row = 5, col = 7\<rparr>, \<lparr>row = 5, col = 8\<rparr>,
          \<lparr>row = 5, col = 9\<rparr>, \<lparr>row = 6, col = 9\<rparr>, \<lparr>row = 7, col = 9\<rparr>, \<lparr>row = 8, col = 9\<rparr>]"
    unfolding T2 by code_simp
  have h': "fromPixel (sampleStep True) = Some \<lparr>row = 5, col = 5\<rparr>"
    by code_simp
  have kv: "(spec_kept (spec_preferred (sampleStep True))
          (\<lambda>orientation. spec_nearOverlaps spec_listedShape defaultCanvas (add (Some (sampleShape Square [\<lparr>row = 7, col = 4\<rparr>, \<lparr>row = 8, col = 4\<rparr>, \<lparr>row = 9, col = 4\<rparr>])) LayerManager_new)
             (rasterOf sampleChars defaultCanvas \<lparr>row = 5, col = 5\<rparr> \<lparr>row = 8, col = 9\<rparr>
                (setToPixel (Some \<lparr>row = 8, col = 9\<rparr>) (sampleStep True)) orientation))) = HorizontalFirst"
    by code_simp
  note TV = drawLayer_keeps_orientation [OF h', of sampleChars defaultCanvas
      "add (Some (sampleShape Square [\<lparr>row = 7, col = 4\<rparr>, \<lparr>row = 8, col = 4\<rparr>, \<lparr>row = 9, col = 4\<rparr>])) LayerManager_new" "\<lparr>row = 8, col = 9\<rparr>", unfolded kv]
  have pv: "pixels (drawLayer sampleChars defaultCanvas (add (Some (sampleShape Square [\<lparr>row = 7, col = 4\<rparr>, \<lparr>row = 8, col = 4\<rparr>, \<lparr>row = 9, col = 4\<rparr>])) LayerManager_new)
          (Some \<lparr>row = 8, col = 9\<rparr>) (sampleStep True))
       = map Some [\<lparr>row = 5, col = 5\<rparr>, \<lparr>row = 5, col = 6\<rparr>, \<lparr>row = 5, col = 7\<rparr>, \<lparr>row = 5, col = 8\<rparr>,
          \<lparr>row = 5, col = 9\<rparr>, \<lparr>row = 6, col = 9\<rparr>, \<lparr>row = 7, col = 9\<rparr>, \<lparr>row = 8, col = 9\<rparr>]"
    unfolding TV by code_simp
  from h k3 T3 p3 k2 T2 p2 h' kv pv show ?thesis by (intro conjI)
qed

text \<open>
  The claim as stated fails: it counts the near-overlaps with the layers that are not
  lines, and a layer of kind free is one of them. With the cells (4, 7), (4, 8), (4, 9)
  on a free layer, the counts over the layers that are not lines are 3 and 0, so the
  vertical-first raster would be kept; \<open>drawLayer\<close> counts 0 and 0 and keeps the
  horizontal-first raster.
\<close>

theorem drawLayer_keeps_orientation_counterexample:
  "spec_nonLineShape Free
   \<and> (spec_kept (spec_preferred (sampleStep False))
          (\<lambda>orientation. spec_nearOverlaps spec_nonLineShape defaultCanvas (add (Some (sampleShape Free [\<lparr>row = 4, col = 7\<rparr>, \<lparr>row = 4, col = 8\<rparr>, \<lparr>row = 4, col = 9\<rparr>])) LayerManager_new)
             (rasterOf sampleChars defaultCanvas \<lparr>row = 5, col = 5\<rparr> \<lparr>row = 8, col = 9\<rparr>
                (setToPixel (Some \<lparr>row = 8, col = 9\<rparr>) (sampleStep False)) orientation))) = VerticalFirst
   \<and> pixels (rasterOf sampleChars defaultCanvas \<lparr>row = 5, col = 5\<rparr> \<lparr>row = 8, col = 9\<rparr>
          (setToPixel (Some \<lparr>row = 8, col = 9\<rparr>) (sampleStep False)) VerticalFirst)
       = map Some [\<lparr>row = 5, col = 5\<rparr>, \<lparr>row = 6, col = 5\<rparr>, \<lparr>row = 7, col = 5\<rparr>, \<lparr>row = 8, col = 5\<rparr>,
          \<lparr>row = 8, col = 6\<rparr>, \<lparr>row = 8, col = 7\<rparr>, \<lparr>row = 8, col = 8\<rparr>, \<lparr>row = 8, col = 9\<rparr>]
   \<and> pixels (drawLayer sampleChars defaultCanvas (add (Some (sampleShape Free [\<lparr>row = 4, col = 7\<rparr>, \<lparr>row = 4, col = 8\<rparr>, \<lparr>row = 4, col = 9\<rparr>])) LayerManager_new)
          (Some \<lparr>row = 8, col = 9\<rparr>) (sampleStep False))
       = map Some [\<lparr>row = 5, col = 5\<rparr>, \<lparr>row = 5, col = 6\<rparr>, \<lparr>row = 5, col = 7\<rparr>, \<lparr>row = 5, col = 8\<rparr>,
          \<lparr>row = 5, col = 9\<rparr>, \<lparr>row = 6, col = 9\<rparr>, \<lparr>row = 7, col = 9\<rparr>, \<lparr>row = 8, col = 9\<rparr>]"
  by code_simp

end
